theory Spec2Isabelle
  imports Complex_Main
begin

section \<open>Data model\<close>

text \<open>
  The classes of the \<^verbatim>\<open>models\<close> module are used by every agent, but their
  declarations are not among the sources. They are reconstructed from the way the
  agents build and read them and from the data model of the specification. The
  wall-clock fields (\<^verbatim>\<open>execution_time_ms\<close>, \<^verbatim>\<open>total_execution_time_ms\<close>,
  \<^verbatim>\<open>total_time_ms\<close>) are left out: they are read from the system clock and no
  decision of the pipeline depends on them. Where two classes share a field name, the
  later record prefixes it (\<open>tr_\<close>, \<open>sr_\<close>, \<open>ar_\<close>).
\<close>

text \<open>
  Structured values: tool parameters and tool payloads (Python dicts, lists, scalars).
  \<open>JFloat\<close> carries the value of a float; the keys of a \<open>JObj\<close> are distinct.
\<close>

datatype json =
    JNull
  | JBool bool
  | JInt int
  | JFloat rat
  | JStr string
  | JList "json list"
  | JObj "(string \<times> json) list"

type_synonym params = "(string \<times> json) list"

text \<open>
  Modelled from the spec: the enumeration \<^verbatim>\<open>ToolType\<close>. The sources use its
  members \<^verbatim>\<open>GITHUB\<close> and \<^verbatim>\<open>WEATHER\<close>; \<open>OtherTool\<close> stands for any
  further member the missing declaration may have.
\<close>

datatype ToolType = GITHUB | WEATHER | OtherTool nat

text \<open>
  Modelled from the spec: the enumeration \<^verbatim>\<open>StepStatus\<close>, given there as
  PENDING, COMPLETED, FAILED.
\<close>

datatype StepStatus = PENDING | COMPLETED | FAILED

record PlanStep =
  step_number :: int
  description :: string
  tool :: ToolType
  parameters :: params
  depends_on :: "int list"

record ExecutionPlan =
  task_summary :: string
  steps :: "PlanStep list"
  reasoning :: string

record ToolResult =
  tr_tool :: ToolType
  tr_success :: bool
  data :: "json option"
  error :: "string option"

text \<open>
  Modelled from the spec: a \<^verbatim>\<open>StepResult\<close> built without \<^verbatim>\<open>tool_result\<close>,
  \<^verbatim>\<open>retry_count\<close> or \<^verbatim>\<open>error_message\<close> has them absent, 0 and absent; the
  embedding writes these defaults out at every construction.
\<close>

record StepResult =
  sr_step_number :: int
  status :: StepStatus
  tool_result :: "ToolResult option"
  retry_count :: nat
  error_message :: "string option"

record ExecutionResult =
  plan :: ExecutionPlan
  step_results :: "StepResult list"
  success :: bool
  partial_success :: bool

text \<open>
  The completeness score is a Python float, a double. It is modelled by the rational
  number the double stands for (the specification bounds it by 0 and 1, so it is finite):
  comparing two doubles is comparing these rationals. The \<^verbatim>\<open>final_output\<close> and
  \<^verbatim>\<open>formatted_response\<close> fields hold rendered text and are not kept in the
  record; the functions that render them are modelled for the exceptions they raise.
\<close>

record VerificationResult =
  is_valid :: bool
  completeness_score :: rat
  issues :: "string list"
  suggestions :: "string list"

record AgentResponse =
  ar_task :: string
  ar_plan :: ExecutionPlan
  execution :: ExecutionResult
  verification :: VerificationResult
  ar_success :: bool

section \<open>Tools, registry and the outside world\<close>

text \<open>The two tool classes of the repository and their \<^verbatim>\<open>tool_type\<close> attribute.\<close>

datatype Tool = GitHubTool | WeatherTool

fun tool_type :: "Tool \<Rightarrow> ToolType" where
  "tool_type GitHubTool = GITHUB"
| "tool_type WeatherTool = WEATHER"

text \<open>
  What the pipeline does to the outside: tool invocations, back-off sleeps (in seconds)
  and requests to the text-generation service.
\<close>

datatype event =
    Invoke Tool params
  | Sleep nat
  | PlanRequest string
  | VerifyRequest string

text \<open>
  The mutable state: the class-level dictionary \<^verbatim>\<open>ToolRegistry._tools\<close>, the
  history of outside interactions, and the orchestrator's phase announcements
  (\<^verbatim>\<open>logger.info("Phase ...")\<close>; the other log lines are not recorded).
\<close>

record world =
  registry :: "ToolType \<rightharpoonup> Tool"
  trace :: "event list"
  phases :: "string list"

text \<open>An awaited call either returns a value or raises; \<open>Raised\<close> carries \<^verbatim>\<open>str(e)\<close>.\<close>

datatype 'a attempt = Returned 'a | Raised string

text \<open>
  The collaborators outside the repository, as functions of the history so far:
  \<^verbatim>\<open>tool.safe_execute(**parameters)\<close>, \<^verbatim>\<open>llm.generate(messages, ExecutionPlan)\<close>
  and \<^verbatim>\<open>llm.generate(messages, VerificationResult)\<close> (\<open>None\<close>: the call raised).
  The verifier's request is a digest of the task and the run result; the service is given
  both in full. \<open>tool_str\<close> is the text of a \<^verbatim>\<open>ToolType\<close> inside an f-string,
  fixed by the missing declaration of the enumeration.
\<close>

record env =
  safe_execute :: "event list \<Rightarrow> Tool \<Rightarrow> params \<Rightarrow> ToolResult attempt"
  generate_plan :: "event list \<Rightarrow> string \<Rightarrow> ExecutionPlan option"
  generate_verification ::
    "event list \<Rightarrow> string \<Rightarrow> ExecutionResult \<Rightarrow> VerificationResult option"
  tool_str :: "ToolType \<Rightarrow> string"

definition emit :: "event \<Rightarrow> world \<Rightarrow> world" where
  "emit e w = w\<lparr>trace := trace w @ [e]\<rparr>"

definition announce :: "string \<Rightarrow> world \<Rightarrow> world" where
  "announce s w = w\<lparr>phases := phases w @ [s]\<rparr>"

subsection \<open>\<^verbatim>\<open>ToolRegistry\<close> (tools/base.py)\<close>

definition ToolRegistry_register :: "Tool \<Rightarrow> world \<Rightarrow> world" where
  "ToolRegistry_register t w = w\<lparr>registry := (registry w)(tool_type t \<mapsto> t)\<rparr>"

definition ToolRegistry_get :: "world \<Rightarrow> ToolType \<Rightarrow> Tool option" where
  "ToolRegistry_get w tt = registry w tt"

definition ToolRegistry_clear :: "world \<Rightarrow> world" where
  "ToolRegistry_clear w = w\<lparr>registry := Map.empty\<rparr>"

section \<open>Executor agent (agents/executor.py)\<close>

definition max_retries :: nat where
  "max_retries = 3"

definition register_tools :: "world \<Rightarrow> world" where
  "register_tools w =
     ToolRegistry_register WeatherTool (ToolRegistry_register GitHubTool (ToolRegistry_clear w))"

text \<open>\<^verbatim>\<open>ExecutorAgent.__init__\<close>: the base initialiser, then \<^verbatim>\<open>_register_tools\<close>.\<close>

definition ExecutorAgent_init :: "world \<Rightarrow> world" where
  "ExecutorAgent_init w = register_tools w"

text \<open>Python's \<^verbatim>\<open>x or d\<close> on an optional string: \<^verbatim>\<open>None\<close> and \<^verbatim>\<open>""\<close> are falsy.\<close>

definition or_default :: "string option \<Rightarrow> string \<Rightarrow> string" where
  "or_default x d = (case x of None \<Rightarrow> d | Some s \<Rightarrow> if s = [] then d else s)"

definition invoke :: "env \<Rightarrow> Tool \<Rightarrow> params \<Rightarrow> world \<Rightarrow> ToolResult attempt \<times> world" where
  "invoke env t p w = (safe_execute env (trace w) t p, emit (Invoke t p) w)"

text \<open>
  The \<^verbatim>\<open>while retry_count < self.max_retries\<close> loop of \<^verbatim>\<open>_execute_step\<close>, with
  its two loop variables. A failing outcome sleeps \<^verbatim>\<open>1 * retry_count\<close> seconds when
  attempts remain; the \<^verbatim>\<open>except\<close> branch does not sleep.
\<close>

function retry_loop ::
  "env \<Rightarrow> Tool \<Rightarrow> PlanStep \<Rightarrow> nat \<Rightarrow> string option \<Rightarrow> world \<Rightarrow> StepResult \<times> world"
where
  "retry_loop env t step n last_error w =
     (if n < max_retries then
        (case invoke env t (parameters step) w of
           (Returned r, w1) \<Rightarrow>
             if tr_success r then
               (\<lparr>sr_step_number = step_number step, status = COMPLETED,
                 tool_result = Some r, retry_count = n, error_message = None\<rparr>, w1)
             else
               retry_loop env t step (n + 1) (error r)
                 (if n + 1 < max_retries then emit (Sleep (1 * (n + 1))) w1 else w1)
         | (Raised e, w1) \<Rightarrow> retry_loop env t step (n + 1) (Some e) w1)
      else
        (\<lparr>sr_step_number = step_number step, status = FAILED, tool_result = None,
          retry_count = n,
          error_message = Some (or_default last_error ''Max retries exceeded'')\<rparr>, w))"
  by pat_completeness auto
termination
  by (relation "measure (\<lambda>(env, t, step, n, last_error, w). max_retries - n)") auto

declare retry_loop.simps [simp del]

definition execute_step :: "env \<Rightarrow> PlanStep \<Rightarrow> world \<Rightarrow> StepResult \<times> world" where
  "execute_step env step w =
     (case ToolRegistry_get w (tool step) of
        None \<Rightarrow>
          (\<lparr>sr_step_number = step_number step, status = FAILED, tool_result = None,
            retry_count = 0,
            error_message = Some (''Tool not found: '' @ tool_str env (tool step))\<rparr>, w)
      | Some t \<Rightarrow> retry_loop env t step 0 None w)"

text \<open>\<^verbatim>\<open>_dependencies_met\<close>: the first missing or not completed dependency answers False.\<close>

fun dependencies_met :: "int list \<Rightarrow> (int \<rightharpoonup> StepResult) \<Rightarrow> bool" where
  "dependencies_met [] completed = True"
| "dependencies_met (dep # deps) completed =
     (case completed dep of
        None \<Rightarrow> False
      | Some r \<Rightarrow> if status r \<noteq> COMPLETED then False else dependencies_met deps completed)"

definition dependencies_not_met :: "PlanStep \<Rightarrow> StepResult" where
  "dependencies_not_met step =
     \<lparr>sr_step_number = step_number step, status = FAILED, tool_result = None,
      retry_count = 0, error_message = Some ''Dependencies not met''\<rparr>"

text \<open>
  The \<^verbatim>\<open>for step in plan.steps\<close> loop of \<^verbatim>\<open>ExecutorAgent.run\<close>, carrying the
  list \<^verbatim>\<open>step_results\<close> and the dictionary \<^verbatim>\<open>completed_steps\<close>.
\<close>

fun run_steps ::
  "env \<Rightarrow> PlanStep list \<Rightarrow> StepResult list \<Rightarrow> (int \<rightharpoonup> StepResult) \<Rightarrow> world \<Rightarrow>
   StepResult list \<times> (int \<rightharpoonup> StepResult) \<times> world"
where
  "run_steps env [] results completed w = (results, completed, w)"
| "run_steps env (step # rest) results completed w =
     (case (if \<not> dependencies_met (depends_on step) completed
            then (dependencies_not_met step, w)
            else execute_step env step w) of
        (result, w') \<Rightarrow>
          run_steps env rest (results @ [result]) (completed(step_number step \<mapsto> result)) w')"

definition success_count :: "StepResult list \<Rightarrow> nat" where
  "success_count results = length (filter (\<lambda>r. status r = COMPLETED) results)"

definition ExecutorAgent_run :: "env \<Rightarrow> ExecutionPlan \<Rightarrow> world \<Rightarrow> ExecutionResult \<times> world" where
  "ExecutorAgent_run env pl w =
     (case run_steps env (steps pl) [] Map.empty w of
        (results, completed, w') \<Rightarrow>
          (let all_success = (success_count results = length results);
               partial = (success_count results > 0 \<and> \<not> all_success)
           in (\<lparr>plan = pl, step_results = results, success = all_success,
                partial_success = partial\<rparr>, w')))"

section \<open>Python strings\<close>

text \<open>
  A Python \<^verbatim>\<open>str\<close> is modelled as a \<open>string\<close> whose characters are the code points
  below 256; text with other code points is outside the model. The functions below are
  the built-ins the agents call, on that range.
\<close>

definition is_upper :: "char \<Rightarrow> bool" where
  "is_upper c =
     (let n = (of_char c :: nat)
      in (65 \<le> n \<and> n \<le> 90) \<or> (192 \<le> n \<and> n \<le> 222 \<and> n \<noteq> 215))"

definition lower_char :: "char \<Rightarrow> char" where
  "lower_char c = (if is_upper c then char_of (of_char c + 32 :: nat) else c)"

text \<open>\<^verbatim>\<open>s.lower()\<close>\<close>

definition py_lower :: "string \<Rightarrow> string" where
  "py_lower s = map lower_char s"

definition is_ascii_lower :: "char \<Rightarrow> bool" where
  "is_ascii_lower c = (let n = (of_char c :: nat) in 97 \<le> n \<and> n \<le> 122)"

text \<open>
  \<^verbatim>\<open>s.title()\<close>, which the planner applies to its own lower-case ASCII city names only:
  a letter after a non-letter is capitalised.
\<close>

fun title_from :: "bool \<Rightarrow> string \<Rightarrow> string" where
  "title_from in_word [] = []"
| "title_from in_word (c # cs) =
     (if is_ascii_lower c then
        (if in_word then c else char_of (of_char c - 32 :: nat)) # title_from True cs
      else if is_upper c then
        (if in_word then lower_char c else c) # title_from True cs
      else c # title_from False cs)"

definition py_title :: "string \<Rightarrow> string" where
  "py_title s = title_from False s"

text \<open>\<^verbatim>\<open>c.isspace()\<close>\<close>

definition is_space :: "char \<Rightarrow> bool" where
  "is_space c =
     (let n = (of_char c :: nat)
      in (9 \<le> n \<and> n \<le> 13) \<or> (28 \<le> n \<and> n \<le> 32) \<or> n = 133 \<or> n = 160)"

text \<open>\<^verbatim>\<open>s.split()\<close>: the maximal runs of non-space characters.\<close>

fun split_from :: "string \<Rightarrow> string \<Rightarrow> string list" where
  "split_from cur [] = (if cur = [] then [] else [cur])"
| "split_from cur (c # cs) =
     (if is_space c then (if cur = [] then split_from [] cs else cur # split_from [] cs)
      else split_from (cur @ [c]) cs)"

definition py_split :: "string \<Rightarrow> string list" where
  "py_split s = split_from [] s"

text \<open>\<^verbatim>\<open>sep.join(xs)\<close>\<close>

fun py_join :: "string \<Rightarrow> string list \<Rightarrow> string" where
  "py_join sep [] = []"
| "py_join sep [x] = x"
| "py_join sep (x # y # ys) = x @ sep @ py_join sep (y # ys)"

text \<open>\<^verbatim>\<open>s.strip(chars)\<close>\<close>

definition py_strip :: "string \<Rightarrow> string \<Rightarrow> string" where
  "py_strip chars s =
     rev (dropWhile (\<lambda>c. c \<in> set chars) (rev (dropWhile (\<lambda>c. c \<in> set chars) s)))"

text \<open>\<^verbatim>\<open>kw in s\<close> on strings\<close>

fun contains :: "string \<Rightarrow> string \<Rightarrow> bool" where
  "contains [] kw = (kw = [])"
| "contains (c # cs) kw = (take (length kw) (c # cs) = kw \<or> contains cs kw)"

text \<open>\<^verbatim>\<open>str(n)\<close> for an integer, and an optional string inside an f-string.\<close>

definition digit_char :: "nat \<Rightarrow> char" where
  "digit_char d = ''0123456789'' ! d"

function str_nat :: "nat \<Rightarrow> string" where
  "str_nat n = (if n < 10 then [digit_char n] else str_nat (n div 10) @ [digit_char (n mod 10)])"
  by pat_completeness auto
termination
  by (relation "measure id") auto

declare str_nat.simps [simp del]

definition str_int :: "int \<Rightarrow> string" where
  "str_int i = (if i < 0 then CHR ''-'' # str_nat (nat (- i)) else str_nat (nat i))"

definition str_opt :: "string option \<Rightarrow> string" where
  "str_opt x = (case x of None \<Rightarrow> ''None'' | Some s \<Rightarrow> s)"

section \<open>Python values\<close>

text \<open>
  The operations the verifier applies to payload values, with the exceptions they raise
  on a value of the wrong type; \<open>Raised\<close> carries the message of CPython 3.11. A
  float that is not a number or infinite behaves in all of them like any non-zero float.
\<close>

fun type_name :: "json \<Rightarrow> string" where
  "type_name JNull = ''NoneType''"
| "type_name (JBool b) = ''bool''"
| "type_name (JInt i) = ''int''"
| "type_name (JFloat f) = ''float''"
| "type_name (JStr s) = ''str''"
| "type_name (JList xs) = ''list''"
| "type_name (JObj kvs) = ''dict''"

text \<open>Truth value testing: \<^verbatim>\<open>not x\<close> holds for None, False, zero and empty values.\<close>

fun truthy :: "json \<Rightarrow> bool" where
  "truthy JNull = False"
| "truthy (JBool b) = b"
| "truthy (JInt i) = (i \<noteq> 0)"
| "truthy (JFloat f) = (f \<noteq> 0)"
| "truthy (JStr s) = (s \<noteq> [])"
| "truthy (JList xs) = (xs \<noteq> [])"
| "truthy (JObj kvs) = (kvs \<noteq> [])"

text \<open>Sequencing: the first exception ends the computation.\<close>

definition and_then :: "'a attempt \<Rightarrow> ('a \<Rightarrow> 'b attempt) \<Rightarrow> 'b attempt" where
  "and_then x f = (case x of Returned v \<Rightarrow> f v | Raised e \<Rightarrow> Raised e)"

text \<open>A type name between single quotes, as the messages show it.\<close>

definition quoted :: "string \<Rightarrow> string" where
  "quoted s = [CHR 0x27] @ s @ [CHR 0x27]"

text \<open>\<^verbatim>\<open>x.get(key, default)\<close>: only a dict has the method.\<close>

definition dict_lookup :: "(string \<times> json) list \<Rightarrow> string \<Rightarrow> json \<Rightarrow> json" where
  "dict_lookup kvs key dflt = (case map_of kvs key of Some v \<Rightarrow> v | None \<Rightarrow> dflt)"

definition py_get :: "json \<Rightarrow> string \<Rightarrow> json \<Rightarrow> json attempt" where
  "py_get x key dflt =
     (case x of
        JObj kvs \<Rightarrow> Returned (dict_lookup kvs key dflt)
      | _ \<Rightarrow> Raised (quoted (type_name x) @ '' object has no attribute '' @ quoted ''get''))"

text \<open>\<^verbatim>\<open>len(x)\<close>\<close>

definition py_len :: "json \<Rightarrow> nat attempt" where
  "py_len x =
     (case x of
        JStr s \<Rightarrow> Returned (length s)
      | JList xs \<Rightarrow> Returned (length xs)
      | JObj kvs \<Rightarrow> Returned (length kvs)
      | _ \<Rightarrow> Raised (''object of type '' @ quoted (type_name x) @ '' has no len()''))"

text \<open>\<^verbatim>\<open>x[:n]\<close>\<close>

definition py_slice :: "nat \<Rightarrow> json \<Rightarrow> json attempt" where
  "py_slice n x =
     (case x of
        JStr s \<Rightarrow> Returned (JStr (take n s))
      | JList xs \<Rightarrow> Returned (JList (take n xs))
      | JObj kvs \<Rightarrow> Raised (''unhashable type: '' @ quoted ''slice'')
      | _ \<Rightarrow> Raised (quoted (type_name x) @ '' object is not subscriptable''))"

text \<open>The items of \<^verbatim>\<open>for item in x\<close>: a string yields its characters, a dict its keys.\<close>

definition py_iter :: "json \<Rightarrow> json list attempt" where
  "py_iter x =
     (case x of
        JStr s \<Rightarrow> Returned (map (\<lambda>c. JStr [c]) s)
      | JList xs \<Rightarrow> Returned xs
      | JObj kvs \<Rightarrow> Returned (map (\<lambda>(k, v). JStr k) kvs)
      | _ \<Rightarrow> Raised (quoted (type_name x) @ '' object is not iterable''))"

text \<open>\<^verbatim>\<open>f"{x:,}"\<close>: numbers (a bool among them) are formatted, the text is not kept.\<close>

definition format_grouped :: "json \<Rightarrow> unit attempt" where
  "format_grouped x =
     (case x of
        JInt i \<Rightarrow> Returned ()
      | JBool b \<Rightarrow> Returned ()
      | JFloat f \<Rightarrow> Returned ()
      | JStr s \<Rightarrow> Raised (''Cannot specify '' @ quoted '','' @ '' with '' @ quoted ''s'' @ ''.'')
      | _ \<Rightarrow> Raised (''unsupported format string passed to '' @ type_name x @ ''.__format__''))"

text \<open>\<^verbatim>\<open>x + "..."\<close> for a sliced value, a string or a list.\<close>

definition py_add_str :: "json \<Rightarrow> string \<Rightarrow> json attempt" where
  "py_add_str x s =
     (case x of
        JStr t \<Rightarrow> Returned (JStr (t @ s))
      | JList xs \<Rightarrow> Raised (''can only concatenate list (not '' @ [CHR 0x22] @ ''str'' @
                     [CHR 0x22] @ '') to list'')
      | _ \<Rightarrow> Raised (''unsupported operand type(s) for +: '' @ quoted (type_name x) @
                     '' and '' @ quoted ''str''))"

subsection \<open>True division of integers\<close>

text \<open>
  \<^verbatim>\<open>a / b\<close> on non-negative integers with \<open>b > 0\<close> is the double nearest to
  the quotient, ties to the even significand. For \<open>a < 2^53 * b\<close> (and a quotient not
  below the normal range) this is: scale the quotient by the least power of two that
  brings it to \<open>2^52 = 4503599627370496\<close> or above, round to an integer, scale back.
\<close>

definition round_half_even :: "nat \<Rightarrow> nat \<Rightarrow> nat" where
  "round_half_even n d =
     (let q = n div d; r = n mod d
      in if 2 * r < d then q else if 2 * r > d then q + 1 else if even q then q else q + 1)"

function shift_for :: "nat \<Rightarrow> nat \<Rightarrow> nat \<Rightarrow> nat" where
  "shift_for a b s =
     (if a = 0 \<or> 4503599627370496 * b \<le> a * 2 ^ s then s else shift_for a b (s + 1))"
  by pat_completeness auto
termination
proof (relation "measure (\<lambda>(a, b, s). 4503599627370496 * b - a * 2 ^ s)")
  show "wf (measure (\<lambda>(a, b, s). 4503599627370496 * b - a * 2 ^ s))"
    by simp
next
  fix a b s :: nat
  assume "\<not> (a = 0 \<or> 4503599627370496 * b \<le> a * 2 ^ s)"
  then have "0 < a * 2 ^ s" and "a * 2 ^ s < 4503599627370496 * b"
    by simp_all
  then have "4503599627370496 * b - 2 * (a * 2 ^ s) < 4503599627370496 * b - a * 2 ^ s"
    by arith
  then have "4503599627370496 * b - a * 2 ^ (s + 1) < 4503599627370496 * b - a * 2 ^ s"
    by (simp add: mult.left_commute)
  then show "((a, b, s + 1), (a, b, s)) \<in> measure (\<lambda>(a, b, s). 4503599627370496 * b - a * 2 ^ s)"
    by simp
qed

declare shift_for.simps [simp del]

definition true_div :: "nat \<Rightarrow> nat \<Rightarrow> rat" where
  "true_div a b =
     (let s = shift_for a b 0
      in of_nat (round_half_even (a * 2 ^ s) b) / of_nat (2 ^ s))"

section \<open>Planner agent (agents/planner.py)\<close>

definition extract_search_query :: "string \<Rightarrow> string \<Rightarrow> string" where
  "extract_search_query task context =
     (let words = py_split task;
          skip_words = {''find'', ''search'', ''get'', ''show'', ''list'', ''the'', ''a'', ''an'',
                        ''for'', ''in'', ''on'', ''github'', ''weather'', ''and'', ''with'', ''top''};
          query_words = filter (\<lambda>w. py_lower w \<notin> skip_words) words
      in if query_words \<noteq> [] then py_join '' '' (take 5 query_words)
         else ''popular repositories'')"

definition common_cities :: "string list" where
  "common_cities =
     [''new york'', ''london'', ''tokyo'', ''paris'', ''berlin'', ''sydney'',
      ''mumbai'', ''singapore'', ''dubai'', ''san francisco'', ''los angeles'',
      ''chicago'', ''seattle'', ''boston'', ''toronto'', ''vancouver'']"

text \<open>
  The second loop of \<^verbatim>\<open>_extract_city\<close>, over the words from position \<open>i\<close> on.
  \<^verbatim>\<open>potential_city[0]\<close> raises IndexError when stripping leaves nothing.
  \<open>Returned None\<close>: the loop ended without returning.
\<close>

fun city_after_preposition :: "string list \<Rightarrow> string option attempt" where
  "city_after_preposition [] = Returned None"
| "city_after_preposition (word # rest) =
     (if py_lower word \<in> set [''in'', ''for'', ''at''] then
        (case rest of
           [] \<Rightarrow> city_after_preposition rest
         | nxt # _ \<Rightarrow>
             (case py_strip ''.,!?'' nxt of
                [] \<Rightarrow> Raised ''string index out of range''
              | c # cs \<Rightarrow>
                  if is_upper c then Returned (Some (c # cs))
                  else city_after_preposition rest))
      else city_after_preposition rest)"

definition extract_city :: "string \<Rightarrow> string attempt" where
  "extract_city task =
     (case filter (contains (py_lower task)) common_cities of
        city # _ \<Rightarrow> Returned (py_title city)
      | [] \<Rightarrow>
          (case city_after_preposition (py_split task) of
             Raised e \<Rightarrow> Raised e
           | Returned (Some city) \<Rightarrow> Returned city
           | Returned None \<Rightarrow> Returned ''London''))"

definition github_keywords :: "string list" where
  "github_keywords = [''github'', ''repo'', ''repository'', ''code'', ''project'', ''star'']"

definition weather_keywords :: "string list" where
  "weather_keywords = [''weather'', ''temperature'', ''forecast'', ''climate'', ''rain'', ''sunny'']"

text \<open>\<^verbatim>\<open>any(kw in task_lower for kw in keywords)\<close>\<close>

definition any_keyword :: "string list \<Rightarrow> string \<Rightarrow> bool" where
  "any_keyword keywords task_lower = list_ex (contains task_lower) keywords"

definition create_fallback_plan :: "string \<Rightarrow> ExecutionPlan attempt" where
  "create_fallback_plan task =
     (let task_lower = py_lower task;
          steps1 =
            (if any_keyword github_keywords task_lower then
               [\<lparr>step_number = 1, description = ''Search GitHub repositories'', tool = GITHUB,
                 parameters = [(''query'', JStr (extract_search_query task ''github'')),
                               (''limit'', JInt 5)],
                 depends_on = []\<rparr>]
             else []);
          step_num = 1 + int (length steps1)
      in case (if any_keyword weather_keywords task_lower then
                 (case extract_city task of
                    Raised e \<Rightarrow> Raised e
                  | Returned city \<Rightarrow>
                      Returned (steps1 @
                        [\<lparr>step_number = step_num, description = ''Get weather for '' @ city,
                          tool = WEATHER, parameters = [(''city'', JStr city)],
                          depends_on = []\<rparr>]))
               else Returned steps1) of
           Raised e \<Rightarrow> Raised e
         | Returned steps2 \<Rightarrow>
             Returned
               \<lparr>task_summary = take 200 task,
                steps =
                  (if steps2 = [] then
                     [\<lparr>step_number = 1,
                       description = ''Search GitHub for relevant repositories'',
                       tool = GITHUB,
                       parameters = [(''query'', JStr (take 50 task)), (''limit'', JInt 5)],
                       depends_on = []\<rparr>]
                   else steps2),
                reasoning = ''Fallback plan generated from keyword extraction''\<rparr>)"

text \<open>
  \<^verbatim>\<open>PlannerAgent.run\<close>: the plan of the text-generation service, or the fallback
  plan when the request raises. An exception of the fallback itself is not caught.
\<close>

definition PlannerAgent_run :: "env \<Rightarrow> string \<Rightarrow> world \<Rightarrow> ExecutionPlan attempt \<times> world" where
  "PlannerAgent_run env task w =
     (case generate_plan env (trace w) task of
        Some pl \<Rightarrow> (Returned pl, emit (PlanRequest task) w)
      | None \<Rightarrow> (create_fallback_plan task, emit (PlanRequest task) w))"

section \<open>Verifier agent (agents/verifier.py)\<close>

text \<open>
  Modelled from the spec: the \<^verbatim>\<open>value\<close> of a \<^verbatim>\<open>ToolType\<close>. The planner's
  schema names the tools "github" and "weather", the keys the verifier looks up; a
  further member has some other value.
\<close>

definition tool_value :: "ToolType \<Rightarrow> string" where
  "tool_value tt =
     (case tt of GITHUB \<Rightarrow> ''github'' | WEATHER \<Rightarrow> ''weather''
      | OtherTool n \<Rightarrow> ''tool'' @ str_nat n)"

text \<open>
  The first loop of \<^verbatim>\<open>_build_final_output\<close>, filling \<^verbatim>\<open>output["data"]\<close>:
  the payload of every COMPLETED step that has a tool result with a truthy payload,
  under the tool's value; a later step overwrites an earlier one.
\<close>

fun collect_data :: "StepResult list \<Rightarrow> (string \<rightharpoonup> json) \<Rightarrow> (string \<rightharpoonup> json)" where
  "collect_data [] output_data = output_data"
| "collect_data (step_result # rest) output_data =
     (if status step_result \<noteq> COMPLETED then collect_data rest output_data
      else
        (case tool_result step_result of
           None \<Rightarrow> collect_data rest output_data
         | Some tr \<Rightarrow>
             (case data tr of
                None \<Rightarrow> collect_data rest output_data
              | Some x \<Rightarrow>
                  if \<not> truthy x then collect_data rest output_data
                  else collect_data rest (output_data(tool_value (tr_tool tr) \<mapsto> x)))))"

text \<open>
  \<^verbatim>\<open>_build_final_output\<close>. It returns \<^verbatim>\<open>output["data"]\<close>; the summary
  sentence is text that is not kept, but computing it calls \<^verbatim>\<open>get\<close> on the
  payloads and \<^verbatim>\<open>len\<close> on the repository list.
\<close>

definition build_final_output :: "ExecutionResult \<Rightarrow> (string \<rightharpoonup> json) attempt" where
  "build_final_output execution_result =
     (let output_data = collect_data (step_results execution_result) Map.empty
      in and_then
           (case output_data ''github'' of
              None \<Rightarrow> Returned ()
            | Some github \<Rightarrow>
                and_then (py_get github ''repositories'' (JList [])) (\<lambda>repos.
                and_then (py_len repos) (\<lambda>repo_count. Returned ())))
           (\<lambda>_. and_then
              (case output_data ''weather'' of
                 None \<Rightarrow> Returned ()
               | Some weather \<Rightarrow>
                   and_then (py_get weather ''city'' (JStr ''Unknown'')) (\<lambda>city.
                   and_then (py_get weather ''temperature_celsius'' (JStr ''N/A'')) (\<lambda>temp.
                   Returned ())))
              (\<lambda>_. Returned output_data)))"

text \<open>
  The body of the loop over the repositories in \<^verbatim>\<open>_format_response\<close>: the name,
  the star count with thousands separators, the description cut to 80 characters.
\<close>

definition format_repo :: "json \<Rightarrow> unit attempt" where
  "format_repo repo =
     and_then (py_get repo ''full_name'' (JStr ''Unknown'')) (\<lambda>full_name.
     and_then (py_get repo ''stars'' (JInt 0)) (\<lambda>stars.
     and_then (format_grouped stars) (\<lambda>_.
     and_then (py_get repo ''description'' (JStr ''No description'')) (\<lambda>desc.
       if truthy desc then
         and_then (py_len desc) (\<lambda>n.
           if n > 80 then
             and_then (py_slice 77 desc) (\<lambda>cut.
             and_then (py_add_str cut ''...'') (\<lambda>_. Returned ()))
           else Returned ())
       else Returned ()))))"

fun format_repos :: "json list \<Rightarrow> unit attempt" where
  "format_repos [] = Returned ()"
| "format_repos (repo # rest) = and_then (format_repo repo) (\<lambda>_. format_repos rest)"

text \<open>
  \<^verbatim>\<open>_format_response\<close>: the repository block over the first five entries, then
  the weather block, whose lines all call \<^verbatim>\<open>get\<close> on the same payload, then the
  issues, which cannot fail. The report text is not kept.
\<close>

definition format_response :: "string \<Rightarrow> (string \<rightharpoonup> json) \<Rightarrow> string list \<Rightarrow> unit attempt" where
  "format_response task output_data issues_list =
     and_then
       (case output_data ''github'' of
          None \<Rightarrow> Returned ()
        | Some github_data \<Rightarrow>
            and_then (py_get github_data ''repositories'' (JList [])) (\<lambda>repos.
            and_then (py_slice 5 repos) (\<lambda>top.
            and_then (py_iter top) format_repos)))
       (\<lambda>_. case output_data ''weather'' of
               None \<Rightarrow> Returned ()
             | Some weather \<Rightarrow>
                 and_then (py_get weather ''city'' (JStr ''Unknown'')) (\<lambda>city. Returned ()))"

text \<open>
  \<^verbatim>\<open>_create_fallback_verification\<close>. The quotient is Python's true division of
  two list lengths. An exception of the two rendering calls leaves the method.
\<close>

definition create_fallback_verification ::
  "string \<Rightarrow> ExecutionResult \<Rightarrow> VerificationResult attempt"
where
  "create_fallback_verification task execution_result =
     (let completed_steps = filter (\<lambda>r. status r = COMPLETED) (step_results execution_result);
          failed_steps = filter (\<lambda>r. status r = FAILED) (step_results execution_result);
          total_steps = length (step_results execution_result);
          completeness =
            (if total_steps > 0 then true_div (length completed_steps) total_steps else 0);
          issues_list =
            map (\<lambda>failed. ''Step '' @ str_int (sr_step_number failed) @ '' failed: '' @
                           str_opt (error_message failed)) failed_steps
      in and_then (build_final_output execution_result) (\<lambda>final_output.
         and_then (format_response task final_output issues_list) (\<lambda>formatted.
         Returned
           \<lparr>is_valid = completeness > 1 / 2, completeness_score = completeness,
            issues = issues_list, suggestions = []\<rparr>)))"

text \<open>
  \<^verbatim>\<open>VerifierAgent.run\<close>: the verification of the text-generation service, or
  the fallback when anything in the \<^verbatim>\<open>try\<close> block raises. The fallback is
  called in the \<^verbatim>\<open>except\<close> branch, so its own exception is not caught.
\<close>

definition VerifierAgent_run ::
  "env \<Rightarrow> string \<Rightarrow> ExecutionResult \<Rightarrow> world \<Rightarrow> VerificationResult attempt \<times> world"
where
  "VerifierAgent_run env task execution_result w =
     (case generate_verification env (trace w) task execution_result of
        Some v \<Rightarrow> (Returned v, emit (VerifyRequest task) w)
      | None \<Rightarrow>
          (create_fallback_verification task execution_result, emit (VerifyRequest task) w))"

section \<open>Orchestrator (agents/orchestrator.py)\<close>

definition AgentOrchestrator_init :: "world \<Rightarrow> world" where
  "AgentOrchestrator_init w = ExecutorAgent_init w"

text \<open>
  The orchestrator is modelled as its constructor leaves it: no progress callback is
  set, so \<^verbatim>\<open>_execute_with_callbacks\<close> is the plan runner.
\<close>

definition execute_with_callbacks :: "env \<Rightarrow> ExecutionPlan \<Rightarrow> world \<Rightarrow> ExecutionResult \<times> world" where
  "execute_with_callbacks env pl w = ExecutorAgent_run env pl w"

text \<open>
  The inner loop of \<^verbatim>\<open>_retry_failed_steps\<close>: the first entry whose
  \<^verbatim>\<open>step_number\<close> matches is overwritten, then \<^verbatim>\<open>break\<close>.
\<close>

fun replace_first :: "int \<Rightarrow> StepResult \<Rightarrow> StepResult list \<Rightarrow> StepResult list" where
  "replace_first n new_result [] = []"
| "replace_first n new_result (r # rs) =
     (if sr_step_number r = n then new_result # rs else r # replace_first n new_result rs)"

text \<open>The outer loop: \<^verbatim>\<open>for step, old_result in failed_steps\<close>.\<close>

fun retry_each ::
  "env \<Rightarrow> (PlanStep \<times> StepResult) list \<Rightarrow> StepResult list \<Rightarrow> world \<Rightarrow> StepResult list \<times> world"
where
  "retry_each env [] results w = (results, w)"
| "retry_each env ((step, old_result) # rest) results w =
     (case execute_step env step w of
        (new_result, w') \<Rightarrow>
          retry_each env rest (replace_first (step_number step) new_result results) w')"

definition failed_steps_of :: "ExecutionPlan \<Rightarrow> ExecutionResult \<Rightarrow> (PlanStep \<times> StepResult) list" where
  "failed_steps_of pl execution_result =
     filter (\<lambda>(step, result). status result = FAILED)
       (zip (steps pl) (step_results execution_result))"

definition retry_failed_steps ::
  "env \<Rightarrow> string \<Rightarrow> ExecutionPlan \<Rightarrow> ExecutionResult \<Rightarrow> VerificationResult \<Rightarrow> world \<Rightarrow>
   (ExecutionResult \<times> VerificationResult) attempt \<times> world"
where
  "retry_failed_steps env task pl execution_result v w =
     (let failed_steps = failed_steps_of pl execution_result
      in if failed_steps = [] then (Returned (execution_result, v), w)
         else
           (case retry_each env failed_steps (step_results execution_result) w of
              (results, w1) \<Rightarrow>
                (let n = success_count results;
                     updated = execution_result
                       \<lparr>step_results := results, success := (n = length results),
                        partial_success := (n > 0 \<and> \<not> n = length results)\<rparr>
                 in case VerifierAgent_run env task updated w1 of
                      (Raised e, w2) \<Rightarrow> (Raised e, w2)
                    | (Returned v', w2) \<Rightarrow> (Returned (updated, v'), w2))))"

text \<open>\<^verbatim>\<open>AgentOrchestrator.run\<close>; an exception of the planner or the verifier propagates.\<close>

definition AgentOrchestrator_run :: "env \<Rightarrow> string \<Rightarrow> world \<Rightarrow> AgentResponse attempt \<times> world" where
  "AgentOrchestrator_run env task w =
     (case PlannerAgent_run env task (announce ''Phase 1: Planning'' w) of
        (Raised e, w1) \<Rightarrow> (Raised e, w1)
      | (Returned pl, w1) \<Rightarrow>
          (case execute_with_callbacks env pl (announce ''Phase 2: Execution'' w1) of
             (execution_result, w2) \<Rightarrow>
               (case VerifierAgent_run env task execution_result
                       (announce ''Phase 3: Verification'' w2) of
                  (Raised e, w3) \<Rightarrow> (Raised e, w3)
                | (Returned v, w3) \<Rightarrow>
                    (case (if \<not> success execution_result \<and> completeness_score v < 1
                           then retry_failed_steps env task pl execution_result v
                                  (announce ''Phase 4: Retrying failed steps'' w3)
                           else (Returned (execution_result, v), w3)) of
                       (Raised e, w4) \<Rightarrow> (Raised e, w4)
                     | (Returned (execution_result', v'), w4) \<Rightarrow>
                         (Returned
                            \<lparr>ar_task = task, ar_plan = pl, execution = execution_result',
                             verification = v',
                             ar_success = (is_valid v' \<and> success execution_result')\<rparr>,
                          w4)))))"

text \<open>
  The update of \<^verbatim>\<open>best_response\<close>: a later response replaces the best one only
  with a strictly greater score.
\<close>

definition keep_best :: "AgentResponse option \<Rightarrow> AgentResponse \<Rightarrow> AgentResponse option" where
  "keep_best best_response response =
     (case best_response of
        None \<Rightarrow> Some response
      | Some best \<Rightarrow>
          if completeness_score (verification response) > completeness_score (verification best)
          then Some response else Some best)"

text \<open>
  The loop of \<^verbatim>\<open>run_with_retry\<close> over the attempts still to make, carrying
  \<^verbatim>\<open>best_response\<close>; an exception of a run propagates.
\<close>

fun attempts_loop ::
  "env \<Rightarrow> string \<Rightarrow> nat \<Rightarrow> AgentResponse option \<Rightarrow> world \<Rightarrow> AgentResponse option attempt \<times> world"
where
  "attempts_loop env task 0 best_response w = (Returned best_response, w)"
| "attempts_loop env task (Suc k) best_response w =
     (case AgentOrchestrator_run env task w of
        (Raised e, w') \<Rightarrow> (Raised e, w')
      | (Returned response, w') \<Rightarrow>
          if ar_success response then (Returned (Some response), w')
          else attempts_loop env task k (keep_best best_response response) w')"

text \<open>\<^verbatim>\<open>range(max_attempts)\<close> is empty for a non-positive bound.\<close>

definition run_with_retry ::
  "env \<Rightarrow> string \<Rightarrow> int \<Rightarrow> world \<Rightarrow> AgentResponse option attempt \<times> world"
where
  "run_with_retry env task max_attempts w = attempts_loop env task (nat max_attempts) None w"

section \<open>Notions used in the statements\<close>

definition step_outcome_ok :: "PlanStep \<Rightarrow> StepResult \<Rightarrow> bool" where
  "step_outcome_ok step r \<longleftrightarrow>
     sr_step_number r = step_number step \<and>
     (status r = COMPLETED \<or> status r = FAILED \<and> retry_count r = max_retries)"

definition tool_not_found :: "env \<Rightarrow> PlanStep \<Rightarrow> StepResult" where
  "tool_not_found env step =
     \<lparr>sr_step_number = step_number step, status = FAILED, tool_result = None,
      retry_count = 0,
      error_message = Some (''Tool not found: '' @ tool_str env (tool step))\<rparr>"

definition resolved :: "StepResult \<Rightarrow> bool" where
  "resolved r \<longleftrightarrow> status r = COMPLETED \<or> status r = FAILED"

definition failed_count :: "StepResult list \<Rightarrow> nat" where
  "failed_count results = length (filter (\<lambda>r. status r = FAILED) results)"

definition issue_line :: "StepResult \<Rightarrow> string" where
  "issue_line r =
     ''Step '' @ str_int (sr_step_number r) @ '' failed: '' @ str_opt (error_message r)"

text \<open>
  The attempts of \<^verbatim>\<open>run_with_retry\<close> one after the other: the world after
  \<open>k\<close> complete runs, and the outcome of attempt \<open>i\<close> (counted from 0),
  which starts in the world its predecessors left.
\<close>

fun world_after :: "env \<Rightarrow> string \<Rightarrow> nat \<Rightarrow> world \<Rightarrow> world" where
  "world_after env task 0 w = w"
| "world_after env task (Suc k) w =
     world_after env task k (snd (AgentOrchestrator_run env task w))"

definition attempt_no :: "env \<Rightarrow> string \<Rightarrow> world \<Rightarrow> nat \<Rightarrow> AgentResponse attempt" where
  "attempt_no env task w i = fst (AgentOrchestrator_run env task (world_after env task i w))"

definition score_of :: "AgentResponse \<Rightarrow> rat" where
  "score_of r = completeness_score (verification r)"

text \<open>
  The step executor as the specification describes it (4.2), given the dependency
  results: the dependency check first, then the tool.
\<close>

definition execute_step_checked ::
  "env \<Rightarrow> PlanStep \<Rightarrow> (int \<rightharpoonup> StepResult) \<Rightarrow> world \<Rightarrow> StepResult \<times> world"
where
  "execute_step_checked env step snapshot w =
     (if \<not> dependencies_met (depends_on step) snapshot then (dependencies_not_met step, w)
      else execute_step env step w)"

text \<open>
  Recovery described position by position: going through the plan and the step list
  side by side, every FAILED entry is replaced by the result of one call of
  \<open>execute_step\<close> on its step, every other entry is kept.
\<close>

fun reexecute_failed ::
  "env \<Rightarrow> PlanStep list \<Rightarrow> StepResult list \<Rightarrow> world \<Rightarrow> StepResult list \<times> world"
where
  "reexecute_failed env (step # ss) (r # rs) w =
     (if status r = FAILED then
        (case execute_step env step w of
           (new_result, w1) \<Rightarrow>
             (case reexecute_failed env ss rs w1 of (rs', w2) \<Rightarrow> (new_result # rs', w2)))
      else (case reexecute_failed env ss rs w of (rs', w2) \<Rightarrow> (r # rs', w2)))"
| "reexecute_failed env [] rs w = (rs, w)"
| "reexecute_failed env ss [] w = ([], w)"

text \<open>
  Payloads as the two tools build them: the repository search a dict whose
  "repositories", if present, is a list of dicts with a numeric star count and a
  description that is a string or None; the weather lookup a dict.
\<close>

fun is_number :: "json \<Rightarrow> bool" where
  "is_number (JInt i) = True"
| "is_number (JFloat f) = True"
| "is_number (JBool b) = True"
| "is_number x = False"

fun is_text_or_none :: "json \<Rightarrow> bool" where
  "is_text_or_none (JStr s) = True"
| "is_text_or_none JNull = True"
| "is_text_or_none x = False"

definition repo_as_shipped :: "json \<Rightarrow> bool" where
  "repo_as_shipped repo =
     (case repo of
        JObj kvs \<Rightarrow>
          is_number (dict_lookup kvs ''stars'' (JInt 0)) \<and>
          is_text_or_none (dict_lookup kvs ''description'' (JStr ''No description''))
      | _ \<Rightarrow> False)"

definition github_as_shipped :: "json \<Rightarrow> bool" where
  "github_as_shipped x =
     (case x of
        JObj kvs \<Rightarrow>
          (case dict_lookup kvs ''repositories'' (JList []) of
             JList rs \<Rightarrow> list_all repo_as_shipped rs
           | _ \<Rightarrow> False)
      | _ \<Rightarrow> False)"

definition weather_as_shipped :: "json \<Rightarrow> bool" where
  "weather_as_shipped x = (case x of JObj kvs \<Rightarrow> True | _ \<Rightarrow> False)"

definition payload_as_shipped :: "StepResult \<Rightarrow> bool" where
  "payload_as_shipped r =
     (case tool_result r of
        None \<Rightarrow> True
      | Some tr \<Rightarrow>
          (case data tr of
             None \<Rightarrow> True
           | Some x \<Rightarrow>
               (if tr_tool tr = GITHUB then github_as_shipped x
                else if tr_tool tr = WEATHER then weather_as_shipped x else True)))"

section \<open>Worked examples: collaborators, plans and results\<close>

definition rate_limited :: ToolResult where
  "rate_limited =
     \<lparr>tr_tool = GITHUB, tr_success = False, data = None,
      error = Some ''GitHub API error: 403 (Rate limit exceeded)''\<rparr>"

definition sunny :: ToolResult where
  "sunny =
     \<lparr>tr_tool = WEATHER, tr_success = True,
      data = Some (JObj [(''city'', JStr ''London''), (''temperature_celsius'', JInt 18)]),
      error = None\<rparr>"

definition repos_found :: ToolResult where
  "repos_found =
     \<lparr>tr_tool = GITHUB, tr_success = True,
      data = Some (JObj [(''total_count'', JInt 1),
                         (''repositories'', JList [JObj [(''full_name'', JStr ''python/cpython'')]])]),
      error = None\<rparr>"

definition ex_tool_str :: "ToolType \<Rightarrow> string" where
  "ex_tool_str tt =
     (case tt of GITHUB \<Rightarrow> ''github'' | WEATHER \<Rightarrow> ''weather'' | OtherTool n \<Rightarrow> ''other'')"

definition world0 :: world where
  "world0 = register_tools \<lparr>registry = Map.empty, trace = [], phases = []\<rparr>"

definition stale_world :: world where
  "stale_world = \<lparr>registry = [OtherTool 0 \<mapsto> GitHubTool], trace = [], phases = []\<rparr>"

definition github_step :: PlanStep where
  "github_step =
     \<lparr>step_number = 1, description = ''Search GitHub repositories'', tool = GITHUB,
      parameters = [(''query'', JStr ''python''), (''limit'', JInt 5)], depends_on = []\<rparr>"

definition weather_step :: PlanStep where
  "weather_step =
     \<lparr>step_number = 2, description = ''Get weather for London'', tool = WEATHER,
      parameters = [(''city'', JStr ''London'')], depends_on = [1]\<rparr>"

definition translate_step :: PlanStep where
  "translate_step =
     \<lparr>step_number = 1, description = ''Translate the task'', tool = OtherTool 0,
      parameters = [], depends_on = []\<rparr>"

definition popular_step :: PlanStep where
  "popular_step =
     \<lparr>step_number = 1, description = ''Search GitHub repositories'', tool = GITHUB,
      parameters = [(''query'', JStr ''popular repositories''), (''limit'', JInt 5)],
      depends_on = []\<rparr>"

definition plan_github_weather :: ExecutionPlan where
  "plan_github_weather =
     \<lparr>task_summary = ''repos, then weather'', steps = [github_step, weather_step],
      reasoning = ''weather after the search''\<rparr>"

definition plan_translate_weather :: ExecutionPlan where
  "plan_translate_weather =
     \<lparr>task_summary = ''translate, then weather'', steps = [translate_step, weather_step],
      reasoning = ''weather after the translation''\<rparr>"

definition plan_popular :: ExecutionPlan where
  "plan_popular =
     \<lparr>task_summary = ''github'', steps = [popular_step],
      reasoning = ''Fallback plan generated from keyword extraction''\<rparr>"

definition long_task :: string where
  "long_task = ''what is the tallest mountain on the planet and how old is it''"

text \<open>Every tool call is rate limited; the text-generation service is down.\<close>

definition env_failing :: env where
  "env_failing =
     \<lparr>safe_execute = (\<lambda>h t p. Returned rate_limited),
      generate_plan = (\<lambda>h s. None),
      generate_verification = (\<lambda>h s r. None),
      tool_str = ex_tool_str\<rparr>"

definition env_github_down :: env where
  "env_github_down =
     \<lparr>safe_execute =
        (\<lambda>h t p. case t of GitHubTool \<Rightarrow> Returned rate_limited | WeatherTool \<Rightarrow> Returned sunny),
      generate_plan = (\<lambda>h s. None),
      generate_verification = (\<lambda>h s r. None),
      tool_str = ex_tool_str\<rparr>"

text \<open>
  The text-generation service returns the two-step plan in which the weather lookup
  depends on the repository search; the search is rate limited, the weather tool answers,
  and verification falls back.
\<close>

definition env_planned :: env where
  "env_planned = env_github_down\<lparr>generate_plan := (\<lambda>h s. Some plan_github_weather)\<rparr>"

text \<open>
  The repository search is rate limited and the service judging the result is up: it
  finds a quarter of the task done while fewer than 14 interactions have taken place,
  three quarters afterwards.
\<close>

definition env_judged :: env where
  "env_judged =
     \<lparr>safe_execute = (\<lambda>h t p. Returned rate_limited),
      generate_plan = (\<lambda>h s. None),
      generate_verification =
        (\<lambda>h s r. Some \<lparr>is_valid = False,
                         completeness_score = (if length h < 14 then 1 / 4 else 3 / 4),
                         issues = [], suggestions = []\<rparr>),
      tool_str = ex_tool_str\<rparr>"

text \<open>
  The repository search is rate limited during the first 13 interactions and answers
  afterwards; the text-generation service is down.
\<close>

definition env_recovering :: env where
  "env_recovering =
     \<lparr>safe_execute =
        (\<lambda>h t p. if length h < 13 then Returned rate_limited else Returned repos_found),
      generate_plan = (\<lambda>h s. None),
      generate_verification = (\<lambda>h s r. None),
      tool_str = ex_tool_str\<rparr>"

definition done_step :: "int \<Rightarrow> StepResult" where
  "done_step n =
     \<lparr>sr_step_number = n, status = COMPLETED, tool_result = Some sunny, retry_count = 0,
      error_message = None\<rparr>"

definition three_of_four :: ExecutionResult where
  "three_of_four =
     \<lparr>plan = plan_github_weather,
      step_results =
        [done_step 1,
         \<lparr>sr_step_number = 2, status = FAILED, tool_result = None, retry_count = 3,
          error_message = Some ''City not found: Atlantis''\<rparr>,
         done_step 3, done_step 4],
      success = False, partial_success = True\<rparr>"

definition three_attempts :: "Tool \<Rightarrow> params \<Rightarrow> event list" where
  "three_attempts t p = [Invoke t p, Sleep 1, Invoke t p, Sleep 2, Invoke t p]"

definition popular_failed :: StepResult where
  "popular_failed =
     \<lparr>sr_step_number = 1, status = FAILED, tool_result = None, retry_count = 3,
      error_message = Some ''GitHub API error: 403 (Rate limit exceeded)''\<rparr>"

definition run_failed :: ExecutionResult where
  "run_failed =
     \<lparr>plan = plan_popular, step_results = [popular_failed], success = False,
      partial_success = False\<rparr>"

definition github_failed :: StepResult where
  "github_failed =
     \<lparr>sr_step_number = 1, status = FAILED, tool_result = None, retry_count = 3,
      error_message = Some ''GitHub API error: 403 (Rate limit exceeded)''\<rparr>"

definition weather_blocked :: StepResult where
  "weather_blocked =
     \<lparr>sr_step_number = 2, status = FAILED, tool_result = None, retry_count = 0,
      error_message = Some ''Dependencies not met''\<rparr>"

definition weather_done :: StepResult where
  "weather_done =
     \<lparr>sr_step_number = 2, status = COMPLETED, tool_result = Some sunny, retry_count = 0,
      error_message = None\<rparr>"

definition run_blocked :: ExecutionResult where
  "run_blocked =
     \<lparr>plan = plan_github_weather, step_results = [github_failed, weather_blocked],
      success = False, partial_success = False\<rparr>"

definition planned_response :: AgentResponse where
  "planned_response =
     \<lparr>ar_task = ''repos, then weather'', ar_plan = plan_github_weather,
      execution =
        \<lparr>plan = plan_github_weather, step_results = [github_failed, weather_done],
         success = False, partial_success = True\<rparr>,
      verification =
        \<lparr>is_valid = False, completeness_score = 1 / 2,
         issues = [''Step 1 failed: GitHub API error: 403 (Rate limit exceeded)''],
         suggestions = []\<rparr>,
      ar_success = False\<rparr>"

definition judged_trace :: "event list" where
  "judged_trace =
     [PlanRequest ''github''] @ three_attempts GitHubTool (parameters popular_step) @
     [VerifyRequest ''github''] @ three_attempts GitHubTool (parameters popular_step) @
     [VerifyRequest ''github'']"

definition all_phases :: "string list" where
  "all_phases =
     [''Phase 1: Planning'', ''Phase 2: Execution'', ''Phase 3: Verification'',
      ''Phase 4: Retrying failed steps'']"

definition judged_response :: "rat \<Rightarrow> AgentResponse" where
  "judged_response score =
     \<lparr>ar_task = ''github'', ar_plan = plan_popular, execution = run_failed,
      verification = \<lparr>is_valid = False, completeness_score = score, issues = [],
                      suggestions = []\<rparr>,
      ar_success = False\<rparr>"

definition first_response :: AgentResponse where
  "first_response =
     \<lparr>ar_task = ''github'', ar_plan = plan_popular, execution = run_failed,
      verification =
        \<lparr>is_valid = False, completeness_score = 0,
         issues = [''Step 1 failed: GitHub API error: 403 (Rate limit exceeded)''],
         suggestions = []\<rparr>,
      ar_success = False\<rparr>"

definition second_response :: AgentResponse where
  "second_response =
     \<lparr>ar_task = ''github'', ar_plan = plan_popular,
      execution =
        \<lparr>plan = plan_popular,
         step_results =
           [\<lparr>sr_step_number = 1, status = COMPLETED, tool_result = Some repos_found,
             retry_count = 0, error_message = None\<rparr>],
         success = True, partial_success = False\<rparr>,
      verification =
        \<lparr>is_valid = True, completeness_score = 1, issues = [], suggestions = []\<rparr>,
      ar_success = True\<rparr>"

definition world1 :: world where
  "world1 = world0\<lparr>trace := judged_trace, phases := all_phases\<rparr>"

definition world2 :: world where
  "world2 =
     world0\<lparr>trace := judged_trace @
               [PlanRequest ''github'', Invoke GitHubTool (parameters popular_step),
                VerifyRequest ''github''],
            phases := all_phases @
               [''Phase 1: Planning'', ''Phase 2: Execution'', ''Phase 3: Verification'']\<rparr>"

section \<open>Properties of the step executor\<close>

lemma phases_emit [simp]: "phases (emit e w) = phases w"
  by (simp add: emit_def)

lemma phases_announce [simp]: "phases (announce s w) = phases w @ [s]"
  by (simp add: announce_def)

lemma retry_loop_exhausted:
  "\<not> n < max_retries \<Longrightarrow>
   retry_loop env t step n last_error w =
     (\<lparr>sr_step_number = step_number step, status = FAILED, tool_result = None,
       retry_count = n,
       error_message = Some (or_default last_error ''Max retries exceeded'')\<rparr>, w)"
  by (subst retry_loop.simps) simp

lemma retry_loop_failing:
  "n < max_retries \<Longrightarrow> safe_execute env (trace w) t (parameters step) = Returned r \<Longrightarrow>
   \<not> tr_success r \<Longrightarrow>
   retry_loop env t step n last_error w =
     retry_loop env t step (n + 1) (error r)
       (if n + 1 < max_retries then emit (Sleep (n + 1)) (emit (Invoke t (parameters step)) w)
        else emit (Invoke t (parameters step)) w)"
  by (subst retry_loop.simps) (simp add: invoke_def)

lemma retry_loop_outcome:
  "n \<le> max_retries \<Longrightarrow> step_outcome_ok step (fst (retry_loop env t step n last_error w))"
proof (induction "max_retries - n" arbitrary: n last_error w)
  case 0
  then have "n = max_retries" by simp
  then show ?case by (simp add: retry_loop_exhausted step_outcome_ok_def)
next
  case (Suc k)
  then have lt: "n < max_retries" and k: "k = max_retries - Suc n" and le: "Suc n \<le> max_retries"
    by simp_all
  note IH = Suc.hyps(1) [OF k le]
  show ?case
    by (subst retry_loop.simps)
      (simp add: lt invoke_def IH step_outcome_ok_def [of step "\<lparr>sr_step_number = _, status = _, tool_result = _, retry_count = _, error_message = _\<rparr>"] split: attempt.split)
qed

lemma retry_loop_phases:
  "n \<le> max_retries \<Longrightarrow> phases (snd (retry_loop env t step n last_error w)) = phases w"
proof (induction "max_retries - n" arbitrary: n last_error w)
  case 0
  then have "n = max_retries" by simp
  then show ?case by (simp add: retry_loop_exhausted)
next
  case (Suc k)
  then have lt: "n < max_retries" and k: "k = max_retries - Suc n" and le: "Suc n \<le> max_retries"
    by simp_all
  note IH = Suc.hyps(1) [OF k le]
  show ?case
    by (subst retry_loop.simps) (simp add: lt invoke_def IH split: attempt.split)
qed

lemma execute_step_unregistered:
  "ToolRegistry_get w (tool step) = None \<Longrightarrow> execute_step env step w = (tool_not_found env step, w)"
  by (simp add: execute_step_def tool_not_found_def)

lemma execute_step_registered:
  "ToolRegistry_get w (tool step) = Some t \<Longrightarrow>
   step_outcome_ok step (fst (execute_step env step w))"
  by (simp add: execute_step_def retry_loop_outcome)

lemma execute_step_resolved: "resolved (fst (execute_step env step w))"
proof (cases "ToolRegistry_get w (tool step)")
  case None
  then show ?thesis by (simp add: execute_step_unregistered tool_not_found_def resolved_def)
next
  case (Some t)
  from execute_step_registered [OF this] show ?thesis
    by (auto simp: step_outcome_ok_def resolved_def)
qed

lemma execute_step_number: "sr_step_number (fst (execute_step env step w)) = step_number step"
proof (cases "ToolRegistry_get w (tool step)")
  case None
  then show ?thesis by (simp add: execute_step_unregistered tool_not_found_def)
next
  case (Some t)
  from execute_step_registered [OF this] show ?thesis
    by (simp add: step_outcome_ok_def)
qed

lemma execute_step_phases: "phases (snd (execute_step env step w)) = phases w"
  by (simp add: execute_step_def retry_loop_phases split: option.split)

lemma execute_step_three_failures:
  assumes reg: "ToolRegistry_get w (tool step) = Some t"
    and r1: "safe_execute env (trace w) t (parameters step) = Returned r1" "\<not> tr_success r1"
    and r2: "safe_execute env (trace w @ [Invoke t (parameters step), Sleep 1])
        t (parameters step) = Returned r2" "\<not> tr_success r2"
    and r3: "safe_execute env
        (trace w @ [Invoke t (parameters step), Sleep 1, Invoke t (parameters step), Sleep 2])
        t (parameters step) = Returned r3" "\<not> tr_success r3"
  shows "execute_step env step w =
          (\<lparr>sr_step_number = step_number step, status = FAILED, tool_result = None,
             retry_count = 3,
             error_message = Some (or_default (error r3) ''Max retries exceeded'')\<rparr>,
           w\<lparr>trace := trace w @
               [Invoke t (parameters step), Sleep 1, Invoke t (parameters step), Sleep 2,
                Invoke t (parameters step)]\<rparr>)"
proof -
  let ?p = "parameters step"
  let ?w1 = "emit (Sleep 1) (emit (Invoke t ?p) w)"
  let ?w2 = "emit (Sleep 2) (emit (Invoke t ?p) ?w1)"
  let ?w3 = "emit (Invoke t ?p) ?w2"
  have tr1: "trace ?w1 = trace w @ [Invoke t ?p, Sleep 1]"
    and tr2: "trace ?w2 = trace w @ [Invoke t ?p, Sleep 1, Invoke t ?p, Sleep 2]"
    by (simp_all add: emit_def)
  have s1: "retry_loop env t step 0 None w = retry_loop env t step 1 (error r1) ?w1"
    using retry_loop_failing [of 0 env w t step r1 None] r1 by (simp add: max_retries_def)
  have s2: "retry_loop env t step 1 (error r1) ?w1 = retry_loop env t step 2 (error r2) ?w2"
    using retry_loop_failing [of 1 env ?w1 t step r2 "error r1"] r2 tr1
    by (simp add: max_retries_def eval_nat_numeral)
  have s3: "retry_loop env t step 2 (error r2) ?w2 = retry_loop env t step 3 (error r3) ?w3"
    using retry_loop_failing [of 2 env ?w2 t step r3 "error r2"] r3 tr2
    by (simp add: max_retries_def eval_nat_numeral)
  have s4: "retry_loop env t step 3 (error r3) ?w3 =
      (\<lparr>sr_step_number = step_number step, status = FAILED, tool_result = None,
        retry_count = 3,
        error_message = Some (or_default (error r3) ''Max retries exceeded'')\<rparr>, ?w3)"
    by (rule retry_loop_exhausted) (simp add: max_retries_def)
  have w3: "?w3 = w\<lparr>trace := trace w @ [Invoke t ?p, Sleep 1, Invoke t ?p, Sleep 2, Invoke t ?p]\<rparr>"
    by (simp add: emit_def)
  have "execute_step env step w = retry_loop env t step 0 None w"
    using reg by (simp add: execute_step_def)
  with s1 s2 s3 s4 w3 show ?thesis by simp
qed

lemma first_attempt_succeeds:
  assumes "ToolRegistry_get w (tool step) = Some t"
    and "safe_execute env (trace w) t (parameters step) = Returned r" and "tr_success r"
  shows "execute_step env step w =
     (\<lparr>sr_step_number = step_number step, status = COMPLETED, tool_result = Some r,
       retry_count = 0, error_message = None\<rparr>,
      emit (Invoke t (parameters step)) w)"
  using assms
  by (simp add: execute_step_def) (subst retry_loop.simps, simp add: max_retries_def invoke_def)

lemma execute_step_ignores_depends_on:
  "execute_step env (step\<lparr>depends_on := deps\<rparr>) w = execute_step env step w"
proof -
  have "retry_loop env t (step\<lparr>depends_on := deps\<rparr>) n last_error w' =
      retry_loop env t step n last_error w'" for t n last_error w'
  proof (induction "max_retries - n" arbitrary: n last_error w')
    case 0
    then show ?case by (simp add: retry_loop_exhausted)
  next
    case (Suc k)
    then have lt: "n < max_retries" and k: "k = max_retries - Suc n"
      by simp_all
    note IH = Suc.hyps(1) [OF k]
    show ?case
      by (subst (1 2) retry_loop.simps) (simp add: lt IH split: attempt.split prod.split)
  qed
  then show ?thesis
    by (simp add: execute_step_def split: option.split)
qed

subsection \<open>The worked examples, step by step\<close>

lemma world0_simps:
  "registry world0 = [GITHUB \<mapsto> GitHubTool, WEATHER \<mapsto> WeatherTool]"
  "trace world0 = []" "phases world0 = []"
  by (simp_all add: world0_def register_tools_def ToolRegistry_register_def ToolRegistry_clear_def)

lemma world0_registry_kept:
  "registry (announce s w) = registry w" "registry (emit e w) = registry w"
  "trace (announce s w) = trace w" "trace (emit e w) = trace w @ [e]"
  by (simp_all add: announce_def emit_def)

lemma github_step_simps:
  "step_number github_step = 1" "depends_on github_step = []" "tool github_step = GITHUB"
  by (simp_all add: github_step_def)

lemma weather_step_simps:
  "step_number weather_step = 2" "depends_on weather_step = [1]" "tool weather_step = WEATHER"
  "parameters weather_step = [(''city'', JStr ''London'')]"
  by (simp_all add: weather_step_def)

lemma popular_step_simps:
  "step_number popular_step = 1" "depends_on popular_step = []" "tool popular_step = GITHUB"
  by (simp_all add: popular_step_def)

lemma rate_limited_step:
  assumes "registry w GITHUB = Some GitHubTool" "tool step = GITHUB"
    and "\<forall>h. length h < length (trace w) + 5 \<longrightarrow>
           safe_execute env h GitHubTool (parameters step) = Returned rate_limited"
  shows "execute_step env step w =
     (\<lparr>sr_step_number = step_number step, status = FAILED, tool_result = None,
       retry_count = 3,
       error_message = Some ''GitHub API error: 403 (Rate limit exceeded)''\<rparr>,
      w\<lparr>trace := trace w @ three_attempts GitHubTool (parameters step)\<rparr>)"
proof -
  have reg: "ToolRegistry_get w (tool step) = Some GitHubTool"
    using assms by (simp add: ToolRegistry_get_def)
  have nok: "\<not> tr_success rate_limited"
    by (simp add: rate_limited_def)
  from assms(3) have
    "safe_execute env (trace w) GitHubTool (parameters step) = Returned rate_limited"
    "safe_execute env (trace w @ [Invoke GitHubTool (parameters step), Sleep 1])
       GitHubTool (parameters step) = Returned rate_limited"
    "safe_execute env (trace w @ [Invoke GitHubTool (parameters step), Sleep 1,
       Invoke GitHubTool (parameters step), Sleep 2]) GitHubTool (parameters step) =
     Returned rate_limited"
    by simp_all
  from execute_step_three_failures [OF reg this(1) nok this(2) nok this(3) nok] show ?thesis
    by (simp add: rate_limited_def or_default_def three_attempts_def)
qed

lemma github_down_step1:
  "execute_step env_github_down github_step world0 =
     (\<lparr>sr_step_number = 1, status = FAILED, tool_result = None, retry_count = 3,
       error_message = Some ''GitHub API error: 403 (Rate limit exceeded)''\<rparr>,
      world0\<lparr>trace :=
        [Invoke GitHubTool (parameters github_step), Sleep 1,
         Invoke GitHubTool (parameters github_step), Sleep 2,
         Invoke GitHubTool (parameters github_step)]\<rparr>)"
  by (simp add: execute_step_def ToolRegistry_get_def world0_simps github_step_def
      retry_loop.simps max_retries_def invoke_def env_github_down_def rate_limited_def
      emit_def or_default_def)

subsection \<open>Claim C2\<close>

text \<open>
  C2. A step whose tool is registered and whose every invocation returns a failing
  outcome is attempted exactly three times, with sleeps of 1 and 2 seconds between the
  attempts and none after the last; the result is FAILED with \<open>retry_count = 3\<close> and
  carries the error of the third outcome, or "Max retries exceeded" when that error is
  absent or empty.
\<close>

theorem C2_failing_tool_three_attempts:
  assumes reg: "ToolRegistry_get w (tool step) = Some t"
    and failing: "\<forall>h. \<exists>r. safe_execute env h t (parameters step) = Returned r \<and> \<not> tr_success r"
  shows "\<exists>r. safe_execute env
            (trace w @ [Invoke t (parameters step), Sleep 1, Invoke t (parameters step), Sleep 2])
            t (parameters step) = Returned r \<and>
          execute_step env step w =
            (\<lparr>sr_step_number = step_number step, status = FAILED, tool_result = None,
              retry_count = 3,
              error_message = Some (or_default (error r) ''Max retries exceeded'')\<rparr>,
             w\<lparr>trace := trace w @
                 [Invoke t (parameters step), Sleep 1, Invoke t (parameters step), Sleep 2,
                  Invoke t (parameters step)]\<rparr>)"
proof -
  let ?p = "parameters step"
  from failing obtain r1 where r1: "safe_execute env (trace w) t ?p = Returned r1" "\<not> tr_success r1"
    by blast
  from failing obtain r2 where r2: "safe_execute env (trace w @ [Invoke t ?p, Sleep 1]) t ?p =
      Returned r2" "\<not> tr_success r2"
    by blast
  from failing obtain r3 where r3: "safe_execute env
      (trace w @ [Invoke t ?p, Sleep 1, Invoke t ?p, Sleep 2]) t ?p = Returned r3" "\<not> tr_success r3"
    by blast
  from execute_step_three_failures [OF reg r1 r2 r3] r3(1) show ?thesis
    by blast
qed

theorem C2_failing_tool_three_attempts_witness:
  "execute_step env_failing github_step world0 =
     (\<lparr>sr_step_number = 1, status = FAILED, tool_result = None, retry_count = 3,
       error_message = Some ''GitHub API error: 403 (Rate limit exceeded)''\<rparr>,
      world0\<lparr>trace :=
        [Invoke GitHubTool (parameters github_step), Sleep 1,
         Invoke GitHubTool (parameters github_step), Sleep 2,
         Invoke GitHubTool (parameters github_step)]\<rparr>)"
proof -
  have reg: "ToolRegistry_get world0 (tool github_step) = Some GitHubTool"
    by (simp add: ToolRegistry_get_def world0_def register_tools_def ToolRegistry_register_def
        ToolRegistry_clear_def github_step_def)
  have failing: "\<forall>h. \<exists>r. safe_execute env_failing h GitHubTool (parameters github_step) = Returned r
      \<and> \<not> tr_success r"
    by (simp add: env_failing_def rate_limited_def)
  have tr0: "trace world0 = []"
    by (simp add: world0_def register_tools_def ToolRegistry_register_def ToolRegistry_clear_def)
  from C2_failing_tool_three_attempts [OF reg failing] tr0 show ?thesis
    by (simp add: env_failing_def rate_limited_def or_default_def github_step_def)
qed

section \<open>Properties of the registry\<close>

text \<open>
  C10. The registry is one dictionary of the process state. Constructing an executor
  agent, and so constructing an orchestrator, discards whatever it held and leaves
  exactly GITHUB mapped to the GitHub tool and WEATHER to the weather tool. In a world
  so initialised the step executor returns its "Tool not found" result for a step
  exactly when the step's tool is neither GITHUB nor WEATHER.
\<close>

theorem C10_registry_after_construction:
  "registry (AgentOrchestrator_init w) = [GITHUB \<mapsto> GitHubTool, WEATHER \<mapsto> WeatherTool] \<and>
   registry (ExecutorAgent_init w) = [GITHUB \<mapsto> GitHubTool, WEATHER \<mapsto> WeatherTool] \<and>
   trace (AgentOrchestrator_init w) = trace w \<and>
   (ToolRegistry_get (AgentOrchestrator_init w) tt \<noteq> None \<longleftrightarrow> tt = GITHUB \<or> tt = WEATHER) \<and>
   (fst (execute_step env step (AgentOrchestrator_init w)) =
      \<lparr>sr_step_number = step_number step, status = FAILED, tool_result = None,
       retry_count = 0,
       error_message = Some (''Tool not found: '' @ tool_str env (tool step))\<rparr>
    \<longleftrightarrow> tool step \<noteq> GITHUB \<and> tool step \<noteq> WEATHER)"
proof -
  have reg: "registry (ExecutorAgent_init w) = [GITHUB \<mapsto> GitHubTool, WEATHER \<mapsto> WeatherTool]"
    by (simp add: ExecutorAgent_init_def register_tools_def ToolRegistry_register_def
        ToolRegistry_clear_def)
  have tr: "trace (AgentOrchestrator_init w) = trace w"
    by (simp add: AgentOrchestrator_init_def ExecutorAgent_init_def register_tools_def
        ToolRegistry_register_def ToolRegistry_clear_def)
  have get: "ToolRegistry_get (AgentOrchestrator_init w) tt \<noteq> None \<longleftrightarrow> tt = GITHUB \<or> tt = WEATHER"
    for tt
    by (simp add: ToolRegistry_get_def AgentOrchestrator_init_def reg)
  have nf: "fst (execute_step env step (AgentOrchestrator_init w)) = tool_not_found env step
      \<longleftrightarrow> tool step \<noteq> GITHUB \<and> tool step \<noteq> WEATHER"
  proof (cases "ToolRegistry_get (AgentOrchestrator_init w) (tool step)")
    case None
    with get [of "tool step"] execute_step_unregistered [OF None, of env] show ?thesis
      by simp
  next
    case (Some t)
    from execute_step_registered [OF Some, of env]
    have "fst (execute_step env step (AgentOrchestrator_init w)) \<noteq> tool_not_found env step"
      by (auto simp: step_outcome_ok_def tool_not_found_def max_retries_def)
    with get [of "tool step"] Some show ?thesis
      by simp
  qed
  from reg tr get nf show ?thesis
    by (simp add: AgentOrchestrator_init_def tool_not_found_def)
qed

theorem C10_registry_after_construction_witness:
  "ToolRegistry_get stale_world (OtherTool 0) = Some GitHubTool \<and>
   ToolRegistry_get (AgentOrchestrator_init stale_world) (OtherTool 0) = None \<and>
   ToolRegistry_get (AgentOrchestrator_init stale_world) GITHUB = Some GitHubTool \<and>
   ToolRegistry_get (AgentOrchestrator_init stale_world) WEATHER = Some WeatherTool \<and>
   fst (execute_step env_github_down translate_step (AgentOrchestrator_init stale_world)) =
     \<lparr>sr_step_number = 1, status = FAILED, tool_result = None, retry_count = 0,
      error_message = Some ''Tool not found: other''\<rparr>"
  using C10_registry_after_construction [of stale_world "OtherTool 0" env_github_down translate_step]
  by (simp add: ToolRegistry_get_def stale_world_def translate_step_def env_github_down_def
      ex_tool_str_def)

section \<open>Properties of the plan runner\<close>

lemma run_steps_append:
  "run_steps env (xs @ ys) results completed w =
     (case run_steps env xs results completed w of
        (results', completed', w') \<Rightarrow> run_steps env ys results' completed' w')"
  by (induction xs arbitrary: results completed w) (auto split: prod.splits)

lemma run_steps_results:
  "\<exists>new. fst (run_steps env xs results completed w) = results @ new \<and>
          length new = length xs \<and> list_all resolved new \<and>
          map sr_step_number new = map step_number xs"
proof (induction xs arbitrary: results completed w)
  case Nil
  show ?case by simp
next
  case (Cons step rest)
  let ?it = "if \<not> dependencies_met (depends_on step) completed
             then (dependencies_not_met step, w) else execute_step env step w"
  have r: "resolved (fst ?it)" and n: "sr_step_number (fst ?it) = step_number step"
    using execute_step_resolved [of env step w] execute_step_number [of env step w]
    by (simp_all add: dependencies_not_met_def resolved_def)
  from Cons.IH [of "results @ [fst ?it]" "completed(step_number step \<mapsto> fst ?it)" "snd ?it"]
  obtain new where new: "fst (run_steps env rest (results @ [fst ?it])
        (completed(step_number step \<mapsto> fst ?it)) (snd ?it)) = (results @ [fst ?it]) @ new"
      "length new = length rest" "list_all resolved new"
      "map sr_step_number new = map step_number rest"
    by blast
  have "fst (run_steps env (step # rest) results completed w) = results @ (fst ?it # new)"
    using new(1) by (simp add: case_prod_beta)
  with new r n show ?case
    by (intro exI [of _ "fst ?it # new"]) simp
qed

lemma count_resolved:
  "list_all resolved rs \<Longrightarrow> success_count rs + failed_count rs = length rs"
  by (induction rs) (auto simp: success_count_def failed_count_def resolved_def)

lemma success_count_status:
  "success_count rs = length (filter (\<lambda>s. s = COMPLETED) (map status rs))"
  by (simp add: success_count_def filter_map o_def)

lemma run_steps_completed:
  "run_steps env xs results completed w = (results', completed', w') \<Longrightarrow>
   completed' =
     completed ++ map_of (rev (zip (map step_number xs) (drop (length results) results')))"
proof (induction xs arbitrary: results completed w)
  case Nil
  then show ?case by simp
next
  case (Cons step rest)
  obtain r w1 where it: "(if \<not> dependencies_met (depends_on step) completed
      then (dependencies_not_met step, w) else execute_step env step w) = (r, w1)"
    by (cases "if \<not> dependencies_met (depends_on step) completed
      then (dependencies_not_met step, w) else execute_step env step w")
  from Cons.prems it have run: "run_steps env rest (results @ [r])
      (completed(step_number step \<mapsto> r)) w1 = (results', completed', w')"
    by simp
  from run_steps_results [of env rest "results @ [r]" "completed(step_number step \<mapsto> r)" w1] run
  obtain new where new: "results' = (results @ [r]) @ new" by auto
  have d: "drop (length (results @ [r])) results' = new"
    using new by simp
  from Cons.IH [OF run]
  have "completed' = completed(step_number step \<mapsto> r) ++
      map_of (rev (zip (map step_number rest) new))"
    unfolding d .
  moreover have "drop (length results) results' = r # new"
    using new by simp
  ultimately show ?case
    by simp
qed

lemma dependencies_met_iff:
  "dependencies_met deps completed \<longleftrightarrow>
     (\<forall>d \<in> set deps. \<exists>r. completed d = Some r \<and> status r = COMPLETED)"
  by (induction deps) (auto split: option.splits)

lemma run_steps_phases:
  "phases (snd (snd (run_steps env xs results completed w))) = phases w"
  by (induction xs arbitrary: results completed w)
    (simp_all add: case_prod_beta execute_step_phases)

lemma ExecutorAgent_run_shape:
  assumes "ExecutorAgent_run env pl w = (er, w')"
  shows "plan er = pl" "length (step_results er) = length (steps pl)"
    "list_all resolved (step_results er)"
    "map sr_step_number (step_results er) = map step_number (steps pl)"
    "success er = (success_count (step_results er) = length (step_results er))"
    "phases w' = phases w"
proof -
  from run_steps_results [of env "steps pl" "[]" Map.empty w]
  obtain new where new: "fst (run_steps env (steps pl) [] Map.empty w) = new"
      "length new = length (steps pl)" "list_all resolved new"
      "map sr_step_number new = map step_number (steps pl)"
    by auto
  from assms new(1) have er: "er = \<lparr>plan = pl, step_results = new,
      success = (success_count new = length new),
      partial_success = (success_count new > 0 \<and> \<not> success_count new = length new)\<rparr>"
    and w': "w' = snd (snd (run_steps env (steps pl) [] Map.empty w))"
    by (auto simp: ExecutorAgent_run_def case_prod_beta Let_def)
  from er new show "plan er = pl" "length (step_results er) = length (steps pl)"
    "list_all resolved (step_results er)"
    "map sr_step_number (step_results er) = map step_number (steps pl)"
    "success er = (success_count (step_results er) = length (step_results er))"
    by simp_all
  from w' show "phases w' = phases w"
    by (simp add: run_steps_phases)
qed

subsection \<open>Claims C6, C7 and C8\<close>

text \<open>
  C6. After \<^verbatim>\<open>ExecutorAgent.run\<close> every step result is COMPLETED or FAILED, there is
  one result per plan step, so the COMPLETED and FAILED counts add up to the number of
  steps; \<open>success\<close> holds exactly when all steps are COMPLETED, and
  \<open>partial_success\<close> exactly when at least one is and \<open>success\<close> is false.
\<close>

theorem C6_run_resolves_every_step:
  "(\<forall>r \<in> set (step_results (fst (ExecutorAgent_run env pl w))).
      status r = COMPLETED \<or> status r = FAILED) \<and>
   length (step_results (fst (ExecutorAgent_run env pl w))) = length (steps pl) \<and>
   success_count (step_results (fst (ExecutorAgent_run env pl w))) +
     failed_count (step_results (fst (ExecutorAgent_run env pl w))) = length (steps pl) \<and>
   success (fst (ExecutorAgent_run env pl w)) =
     (success_count (step_results (fst (ExecutorAgent_run env pl w))) = length (steps pl)) \<and>
   partial_success (fst (ExecutorAgent_run env pl w)) =
     (success_count (step_results (fst (ExecutorAgent_run env pl w))) > 0 \<and>
      \<not> success (fst (ExecutorAgent_run env pl w)))"
proof -
  from run_steps_results [of env "steps pl" "[]" Map.empty w]
  obtain new where new: "fst (run_steps env (steps pl) [] Map.empty w) = new"
      "length new = length (steps pl)" "list_all resolved new"
    by auto
  have sr: "step_results (fst (ExecutorAgent_run env pl w)) = new"
    using new(1) by (simp add: ExecutorAgent_run_def case_prod_beta Let_def)
  have s: "success (fst (ExecutorAgent_run env pl w)) = (success_count new = length new)"
    using new(1) by (simp add: ExecutorAgent_run_def case_prod_beta Let_def)
  have p: "partial_success (fst (ExecutorAgent_run env pl w)) =
      (success_count new > 0 \<and> \<not> success_count new = length new)"
    using new(1) by (simp add: ExecutorAgent_run_def case_prod_beta Let_def)
  from count_resolved [OF new(3)] new(2,3) show ?thesis
    unfolding sr s p by (simp add: list_all_iff resolved_def)
qed

text \<open>
  C6, on the two-step plan with the repository search rate limited: both steps end
  FAILED, none COMPLETED, and neither flag is set.
\<close>

theorem C6_run_resolves_every_step_witness:
  "map status (step_results (fst (ExecutorAgent_run env_github_down plan_github_weather world0))) =
     [FAILED, FAILED] \<and>
   success_count (step_results (fst (ExecutorAgent_run env_github_down plan_github_weather world0))) +
     failed_count (step_results (fst (ExecutorAgent_run env_github_down plan_github_weather world0))) = 2 \<and>
   \<not> success (fst (ExecutorAgent_run env_github_down plan_github_weather world0)) \<and>
   \<not> partial_success (fst (ExecutorAgent_run env_github_down plan_github_weather world0))"
proof -
  have sr: "map status (step_results (fst (ExecutorAgent_run env_github_down plan_github_weather world0))) =
     [FAILED, FAILED]"
    by (simp add: ExecutorAgent_run_def plan_github_weather_def github_down_step1 Let_def
        github_step_simps weather_step_simps dependencies_not_met_def)
  then have sc: "success_count (step_results (fst (ExecutorAgent_run env_github_down plan_github_weather world0))) = 0"
    by (simp add: success_count_status)
  from C6_run_resolves_every_step [of env_github_down plan_github_weather world0] sr sc
  show ?thesis
    by (simp add: plan_github_weather_def)
qed

text \<open>
  C7. While \<^verbatim>\<open>ExecutorAgent.run\<close> walks the plan, \<open>completed\<close> holds for every
  step number processed so far the latest result recorded under it. A step with a
  dependency that is missing there, or recorded with a status other than COMPLETED, gets
  the result FAILED, "Dependencies not met", no tool result and no retries; handling it
  leaves the world as it was (no tool invocation, no sleep), and this is the result the
  run reports at the step's position.
\<close>

theorem C7_unmet_dependency_fails_immediately:
  assumes pl: "steps pl = pre @ step # post"
    and pre: "run_steps env pre [] Map.empty w = (results, completed, w1)"
    and dep: "dep \<in> set (depends_on step)"
    and unmet: "completed dep = None \<or> (\<exists>r. completed dep = Some r \<and> status r \<noteq> COMPLETED)"
  shows "completed = map_of (rev (zip (map step_number pre) results)) \<and>
         run_steps env (pre @ [step]) [] Map.empty w =
           (results @
              [\<lparr>sr_step_number = step_number step, status = FAILED, tool_result = None,
                retry_count = 0, error_message = Some ''Dependencies not met''\<rparr>],
            completed(step_number step \<mapsto>
              \<lparr>sr_step_number = step_number step, status = FAILED, tool_result = None,
                retry_count = 0, error_message = Some ''Dependencies not met''\<rparr>),
            w1) \<and>
         step_results (fst (ExecutorAgent_run env pl w)) ! length pre =
           \<lparr>sr_step_number = step_number step, status = FAILED, tool_result = None,
             retry_count = 0, error_message = Some ''Dependencies not met''\<rparr>"
proof -
  let ?r = "dependencies_not_met step"
  have c: "completed = map_of (rev (zip (map step_number pre) results))"
    using run_steps_completed [OF pre] by simp
  from dep unmet have nm: "\<not> dependencies_met (depends_on step) completed"
    by (fastforce simp: dependencies_met_iff)
  have one: "run_steps env (pre @ [step]) [] Map.empty w =
      (results @ [?r], completed(step_number step \<mapsto> ?r), w1)"
    using pre nm by (simp add: run_steps_append)
  from run_steps_results [of env pre "[]" Map.empty w] pre
  have len: "length results = length pre" by auto
  have "run_steps env (steps pl) [] Map.empty w =
      run_steps env post (results @ [?r]) (completed(step_number step \<mapsto> ?r)) w1"
    using pre nm by (simp add: pl run_steps_append)
  with run_steps_results [of env post "results @ [?r]" "completed(step_number step \<mapsto> ?r)" w1]
  obtain new where "fst (run_steps env (steps pl) [] Map.empty w) = (results @ [?r]) @ new"
    by auto
  then have "step_results (fst (ExecutorAgent_run env pl w)) ! length pre = ?r"
    using len by (simp add: ExecutorAgent_run_def case_prod_beta Let_def nth_append)
  with c one show ?thesis
    by (simp add: dependencies_not_met_def)
qed

theorem C7_unmet_dependency_fails_immediately_witness:
  "step_results (fst (ExecutorAgent_run env_github_down plan_github_weather world0)) ! 1 =
     \<lparr>sr_step_number = 2, status = FAILED, tool_result = None, retry_count = 0,
      error_message = Some ''Dependencies not met''\<rparr> \<and>
   trace (snd (ExecutorAgent_run env_github_down plan_github_weather world0)) =
     [Invoke GitHubTool (parameters github_step), Sleep 1,
      Invoke GitHubTool (parameters github_step), Sleep 2,
      Invoke GitHubTool (parameters github_step)]"
proof -
  let ?r1 = "\<lparr>sr_step_number = 1, status = FAILED, tool_result = None, retry_count = 3,
       error_message = Some ''GitHub API error: 403 (Rate limit exceeded)''\<rparr>"
  let ?w1 = "world0\<lparr>trace :=
        [Invoke GitHubTool (parameters github_step), Sleep 1,
         Invoke GitHubTool (parameters github_step), Sleep 2,
         Invoke GitHubTool (parameters github_step)]\<rparr>"
  have pl: "steps plan_github_weather = [github_step] @ weather_step # []"
    by (simp add: plan_github_weather_def)
  have pre: "run_steps env_github_down [github_step] [] Map.empty world0 =
      ([?r1], [1 \<mapsto> ?r1], ?w1)"
    by (simp add: github_down_step1) (simp add: github_step_def)
  have dep: "1 \<in> set (depends_on weather_step)"
    by (simp add: weather_step_def)
  have unmet: "[1 \<mapsto> ?r1] 1 = None \<or> (\<exists>r. [1 \<mapsto> ?r1] 1 = Some r \<and> status r \<noteq> COMPLETED)"
    by simp
  from C7_unmet_dependency_fails_immediately [OF pl pre dep unmet]
  have a: "step_results (fst (ExecutorAgent_run env_github_down plan_github_weather world0)) ! 1 =
     \<lparr>sr_step_number = 2, status = FAILED, tool_result = None, retry_count = 0,
      error_message = Some ''Dependencies not met''\<rparr>"
    and b: "run_steps env_github_down ([github_step] @ [weather_step]) [] Map.empty world0 =
      ([?r1] @ [\<lparr>sr_step_number = step_number weather_step, status = FAILED, tool_result = None,
          retry_count = 0, error_message = Some ''Dependencies not met''\<rparr>],
       [1 \<mapsto> ?r1](step_number weather_step \<mapsto>
          \<lparr>sr_step_number = step_number weather_step, status = FAILED, tool_result = None,
            retry_count = 0, error_message = Some ''Dependencies not met''\<rparr>), ?w1)"
    by (simp_all add: weather_step_def github_step_def)
  have "trace (snd (ExecutorAgent_run env_github_down plan_github_weather world0)) = trace ?w1"
    using b by (simp add: ExecutorAgent_run_def plan_github_weather_def Let_def)
  with a show ?thesis by simp
qed

text \<open>
  C8. In a two-step plan whose first step has no dependencies and names a tool that is
  not registered, and whose second step depends on the first, the run invokes nothing:
  step 1 is FAILED with "Tool not found: {tool}", step 2 is FAILED with
  "Dependencies not met", and \<open>success\<close> and \<open>partial_success\<close> are both false.
\<close>

theorem C8_unregistered_tool_then_dependent:
  assumes pl: "steps pl = [s1, s2]"
    and first: "depends_on s1 = []"
    and dep: "step_number s1 \<in> set (depends_on s2)"
    and unreg: "ToolRegistry_get w (tool s1) = None"
  shows "ExecutorAgent_run env pl w =
     (\<lparr>plan = pl,
       step_results =
         [\<lparr>sr_step_number = step_number s1, status = FAILED, tool_result = None,
           retry_count = 0,
           error_message = Some (''Tool not found: '' @ tool_str env (tool s1))\<rparr>,
          \<lparr>sr_step_number = step_number s2, status = FAILED, tool_result = None,
           retry_count = 0, error_message = Some ''Dependencies not met''\<rparr>],
       success = False, partial_success = False\<rparr>, w)"
proof -
  have s1: "execute_step env s1 w = (tool_not_found env s1, w)"
    using unreg by (rule execute_step_unregistered)
  have "\<not> dependencies_met (depends_on s2) [step_number s1 \<mapsto> tool_not_found env s1]"
    using dep by (fastforce simp: dependencies_met_iff tool_not_found_def)
  then have "run_steps env [s1, s2] [] Map.empty w =
      ([tool_not_found env s1, dependencies_not_met s2],
       [step_number s1 \<mapsto> tool_not_found env s1, step_number s2 \<mapsto> dependencies_not_met s2], w)"
    using first s1 by simp
  then show ?thesis
    by (simp add: ExecutorAgent_run_def pl success_count_def tool_not_found_def
        dependencies_not_met_def)
qed

theorem C8_unregistered_tool_then_dependent_witness:
  "ExecutorAgent_run env_github_down plan_translate_weather world0 =
     (\<lparr>plan = plan_translate_weather,
       step_results =
         [\<lparr>sr_step_number = 1, status = FAILED, tool_result = None, retry_count = 0,
           error_message = Some ''Tool not found: other''\<rparr>,
          \<lparr>sr_step_number = 2, status = FAILED, tool_result = None, retry_count = 0,
           error_message = Some ''Dependencies not met''\<rparr>],
       success = False, partial_success = False\<rparr>, world0)"
proof -
  have pl: "steps plan_translate_weather = [translate_step, weather_step]"
    by (simp add: plan_translate_weather_def)
  have first: "depends_on translate_step = []"
    by (simp add: translate_step_def)
  have dep: "step_number translate_step \<in> set (depends_on weather_step)"
    by (simp add: translate_step_def weather_step_def)
  have unreg: "ToolRegistry_get world0 (tool translate_step) = None"
    by (simp add: ToolRegistry_get_def world0_simps translate_step_def)
  from C8_unregistered_tool_then_dependent [OF pl first dep unreg, of env_github_down]
  show ?thesis
    by (simp add: translate_step_def weather_step_def env_github_down_def ex_tool_str_def)
qed

section \<open>Properties of the fallback verifier\<close>

lemma true_div_zero: "true_div 0 b = 0"
  by (simp add: true_div_def shift_for.simps round_half_even_def)

lemma true_div_examples:
  "true_div 3 4 = 3 / 4" "true_div 1 2 = 1 / 2" "true_div 1 1 = 1"
  "true_div 1 3 = 6004799503160661 / 18014398509481984"
  by (simp_all add: true_div_def shift_for.simps round_half_even_def Let_def)

lemma tool_value_keys:
  "tool_value tt = ''github'' \<longleftrightarrow> tt = GITHUB"
  "tool_value tt = ''weather'' \<longleftrightarrow> tt = WEATHER"
  "''github'' = tool_value tt \<longleftrightarrow> tt = GITHUB"
  "''weather'' = tool_value tt \<longleftrightarrow> tt = WEATHER"
  by (cases tt; simp add: tool_value_def)+

lemma format_grouped_number: "is_number x \<Longrightarrow> format_grouped x = Returned ()"
  by (cases x) (simp_all add: format_grouped_def)

lemma description_text_or_none:
  "is_text_or_none d \<Longrightarrow>
   (if truthy d then
      and_then (py_len d) (\<lambda>n.
        if n > 80 then
          and_then (py_slice 77 d) (\<lambda>cut. and_then (py_add_str cut ''...'') (\<lambda>_. Returned ()))
        else Returned ())
    else Returned ()) = Returned ()"
  by (cases d) (simp_all add: and_then_def py_len_def py_slice_def py_add_str_def)

lemma and_then_Returned: "and_then (Returned x) f = f x"
  by (simp add: and_then_def)

lemma and_then_Raised: "and_then (Raised e) f = Raised e"
  by (simp add: and_then_def)

lemma py_get_JObj: "py_get (JObj kvs) key dflt = Returned (dict_lookup kvs key dflt)"
  by (simp add: py_get_def)

lemma format_repo_as_shipped:
  assumes "repo_as_shipped repo"
  shows "format_repo repo = Returned ()"
proof -
  from assms obtain kvs where repo: "repo = JObj kvs"
      and s: "is_number (dict_lookup kvs ''stars'' (JInt 0))"
      and d: "is_text_or_none (dict_lookup kvs ''description'' (JStr ''No description''))"
    by (cases repo) (simp_all add: repo_as_shipped_def)
  show ?thesis
    unfolding format_repo_def repo py_get_JObj and_then_Returned
      format_grouped_number [OF s] description_text_or_none [OF d]
    by (rule refl)
qed

lemma format_repos_as_shipped: "list_all repo_as_shipped rs \<Longrightarrow> format_repos rs = Returned ()"
  by (induction rs) (simp_all add: format_repo_as_shipped and_then_Returned)

lemma github_as_shipped_cases:
  assumes "github_as_shipped x"
  obtains kvs rs where "x = JObj kvs" "dict_lookup kvs ''repositories'' (JList []) = JList rs"
    "list_all repo_as_shipped rs"
proof -
  from assms obtain kvs where x: "x = JObj kvs"
    by (cases x) (simp_all add: github_as_shipped_def)
  from assms obtain rs where "dict_lookup kvs ''repositories'' (JList []) = JList rs"
      "list_all repo_as_shipped rs"
    unfolding x github_as_shipped_def
    by (cases "dict_lookup kvs ''repositories'' (JList [])") simp_all
  with x that show thesis by blast
qed

lemma weather_as_shipped_cases:
  assumes "weather_as_shipped x"
  obtains kvs where "x = JObj kvs"
  using assms by (cases x) (simp_all add: weather_as_shipped_def)

lemma github_summary_as_shipped:
  assumes "github_as_shipped x"
  shows "and_then (py_get x ''repositories'' (JList [])) (\<lambda>repos.
           and_then (py_len repos) (\<lambda>repo_count. Returned ())) = Returned ()"
proof -
  from assms obtain kvs rs where "x = JObj kvs"
      "dict_lookup kvs ''repositories'' (JList []) = JList rs"
    by (rule github_as_shipped_cases)
  then show ?thesis
    by (simp add: py_get_JObj and_then_Returned py_len_def)
qed

lemma github_block_as_shipped:
  assumes "github_as_shipped x"
  shows "and_then (py_get x ''repositories'' (JList [])) (\<lambda>repos.
           and_then (py_slice 5 repos) (\<lambda>top. and_then (py_iter top) format_repos)) = Returned ()"
proof -
  from assms obtain kvs rs where x: "x = JObj kvs"
      "dict_lookup kvs ''repositories'' (JList []) = JList rs"
      and rs: "list_all repo_as_shipped rs"
    by (rule github_as_shipped_cases)
  from rs have "list_all repo_as_shipped (take 5 rs)"
    by (auto simp: list_all_iff dest: in_set_takeD)
  then have "format_repos (take 5 rs) = Returned ()"
    by (rule format_repos_as_shipped)
  with x show ?thesis
    by (simp add: py_get_JObj and_then_Returned py_slice_def py_iter_def)
qed

lemma collect_data_as_shipped:
  assumes "list_all payload_as_shipped rs"
    and "\<forall>x. d ''github'' = Some x \<longrightarrow> github_as_shipped x"
    and "\<forall>x. d ''weather'' = Some x \<longrightarrow> weather_as_shipped x"
  shows "(\<forall>x. collect_data rs d ''github'' = Some x \<longrightarrow> github_as_shipped x) \<and>
         (\<forall>x. collect_data rs d ''weather'' = Some x \<longrightarrow> weather_as_shipped x)"
  using assms
proof (induction rs arbitrary: d)
  case Nil
  then show ?case by simp
next
  case (Cons r rs)
  from Cons.prems(1) have rest: "list_all payload_as_shipped rs" and r: "payload_as_shipped r"
    by simp_all
  show ?case
  proof (cases "status r = COMPLETED \<and> (\<exists>tr x. tool_result r = Some tr \<and> data tr = Some x \<and> truthy x)")
    case False
    then have "collect_data (r # rs) d = collect_data rs d"
      by (cases "tool_result r"; cases "data (the (tool_result r))"; simp)
    with Cons.IH [OF rest Cons.prems(2) Cons.prems(3)] show ?thesis by simp
  next
    case True
    then obtain tr x where tr: "tool_result r = Some tr" "data tr = Some x" "truthy x"
        "status r = COMPLETED"
      by blast
    then have c: "collect_data (r # rs) d = collect_data rs (d(tool_value (tr_tool tr) \<mapsto> x))"
      by simp
    from r tr have ok: "(tr_tool tr = GITHUB \<longrightarrow> github_as_shipped x) \<and>
        (tr_tool tr = WEATHER \<longrightarrow> weather_as_shipped x)"
      by (simp add: payload_as_shipped_def)
    have g: "\<forall>y. (d(tool_value (tr_tool tr) \<mapsto> x)) ''github'' = Some y \<longrightarrow> github_as_shipped y"
      using Cons.prems(2) ok by (simp add: tool_value_keys)
    have w: "\<forall>y. (d(tool_value (tr_tool tr) \<mapsto> x)) ''weather'' = Some y \<longrightarrow> weather_as_shipped y"
      using Cons.prems(3) ok by (simp add: tool_value_keys)
    show ?thesis
      unfolding c by (rule Cons.IH [OF rest g w])
  qed
qed

lemma rendering_as_shipped:
  assumes "list_all payload_as_shipped (step_results er)"
  shows "build_final_output er = Returned (collect_data (step_results er) Map.empty) \<and>
         format_response task (collect_data (step_results er) Map.empty) iss = Returned ()"
proof -
  let ?d = "collect_data (step_results er) Map.empty"
  from collect_data_as_shipped [OF assms, of Map.empty]
  have g: "\<And>x. ?d ''github'' = Some x \<Longrightarrow> github_as_shipped x"
    and w: "\<And>x. ?d ''weather'' = Some x \<Longrightarrow> weather_as_shipped x"
    by simp_all
  have g1: "(case ?d ''github'' of None \<Rightarrow> Returned ()
             | Some github \<Rightarrow> and_then (py_get github ''repositories'' (JList [])) (\<lambda>repos.
                 and_then (py_len repos) (\<lambda>repo_count. Returned ()))) = Returned ()"
    by (cases "?d ''github''") (simp_all add: github_summary_as_shipped g)
  have g2: "(case ?d ''github'' of None \<Rightarrow> Returned ()
             | Some github_data \<Rightarrow> and_then (py_get github_data ''repositories'' (JList [])) (\<lambda>repos.
                 and_then (py_slice 5 repos) (\<lambda>top. and_then (py_iter top) format_repos))) = Returned ()"
    by (cases "?d ''github''") (simp_all add: github_block_as_shipped g)
  have w1: "(case ?d ''weather'' of None \<Rightarrow> Returned ()
             | Some weather \<Rightarrow> and_then (py_get weather ''city'' (JStr ''Unknown'')) (\<lambda>city.
                 and_then (py_get weather ''temperature_celsius'' (JStr ''N/A'')) (\<lambda>temp.
                 Returned ()))) = Returned ()"
  proof (cases "?d ''weather''")
    case None
    then show ?thesis by simp
  next
    case (Some x)
    from w [OF Some] obtain kvs where "x = JObj kvs" by (rule weather_as_shipped_cases)
    with Some show ?thesis by (simp add: py_get_JObj and_then_Returned)
  qed
  have w2: "(case ?d ''weather'' of None \<Rightarrow> Returned ()
             | Some weather \<Rightarrow> and_then (py_get weather ''city'' (JStr ''Unknown'')) (\<lambda>city.
                 Returned ())) = Returned ()"
  proof (cases "?d ''weather''")
    case None
    then show ?thesis by simp
  next
    case (Some x)
    from w [OF Some] obtain kvs where "x = JObj kvs" by (rule weather_as_shipped_cases)
    with Some show ?thesis by (simp add: py_get_JObj and_then_Returned)
  qed
  have "build_final_output er = Returned ?d"
    unfolding build_final_output_def Let_def g1 w1 and_then_Returned by (rule refl)
  moreover have "format_response task ?d iss = Returned ()"
    unfolding format_response_def g2 w2 and_then_Returned by (rule refl)
  ultimately show ?thesis by simp
qed

lemma create_fallback_verification_Returned:
  assumes "create_fallback_verification task er = Returned v"
  shows "v =
    \<lparr>is_valid =
       (if length (step_results er) = 0 then 0
        else true_div (success_count (step_results er)) (length (step_results er))) > 1 / 2,
     completeness_score =
       (if length (step_results er) = 0 then 0
        else true_div (success_count (step_results er)) (length (step_results er))),
     issues = map issue_line (filter (\<lambda>r. status r = FAILED) (step_results er)),
     suggestions = []\<rparr>"
  using assms unfolding create_fallback_verification_def Let_def and_then_def
  by (cases "build_final_output er")
     (auto simp: success_count_def issue_line_def split: attempt.splits)

lemma create_fallback_verification_step_results:
  "create_fallback_verification task' (er\<lparr>plan := p, success := s, partial_success := ps\<rparr>) =
   create_fallback_verification task er"
  by (simp add: create_fallback_verification_def build_final_output_def format_response_def)

lemma create_fallback_verification_as_shipped:
  assumes "list_all payload_as_shipped (step_results er)"
  shows "\<exists>v. create_fallback_verification task er = Returned v"
  unfolding create_fallback_verification_def Let_def
  by (simp add: rendering_as_shipped [OF assms] and_then_Returned)

lemma VerifierAgent_run_phases: "phases (snd (VerifierAgent_run env task er w)) = phases w"
  by (simp add: VerifierAgent_run_def emit_def split: option.split)

lemma VerifierAgent_run_fallback:
  "generate_verification env (trace w) task er = None \<Longrightarrow>
   fst (VerifierAgent_run env task er w) = create_fallback_verification task er"
  by (simp add: VerifierAgent_run_def)

lemma create_fallback_verification_value:
  assumes "list_all payload_as_shipped (step_results er)"
  shows "create_fallback_verification task er =
    Returned
     \<lparr>is_valid =
        (if length (step_results er) = 0 then 0
         else true_div (success_count (step_results er)) (length (step_results er))) > 1 / 2,
      completeness_score =
        (if length (step_results er) = 0 then 0
         else true_div (success_count (step_results er)) (length (step_results er))),
      issues = map issue_line (filter (\<lambda>r. status r = FAILED) (step_results er)),
      suggestions = []\<rparr>"
proof -
  from create_fallback_verification_as_shipped [OF assms]
  obtain v where v: "create_fallback_verification task er = Returned v"
    by blast
  from create_fallback_verification_Returned [OF v] v show ?thesis
    by simp
qed

lemma true_div_Suc:
  "true_div (Suc 0) (Suc 0) = 1" "true_div (Suc 0) (Suc (Suc 0)) = 1 / 2"
  using true_div_examples(2,3) by (simp_all add: numeral_2_eq_2)

lemmas shipped_simps =
  create_fallback_verification_value payload_as_shipped_def github_as_shipped_def
  weather_as_shipped_def repo_as_shipped_def dict_lookup_def issue_line_def
  true_div_zero true_div_examples true_div_Suc

lemma VerifierAgent_run_returns:
  assumes "generate_verification env (trace w) task er \<noteq> None \<or>
    list_all payload_as_shipped (step_results er)"
  shows "\<exists>v. fst (VerifierAgent_run env task er w) = Returned v"
proof (cases "generate_verification env (trace w) task er")
  case None
  with assms have "list_all payload_as_shipped (step_results er)"
    by simp
  from create_fallback_verification_as_shipped [OF this, of task] None show ?thesis
    by (simp add: VerifierAgent_run_def)
next
  case (Some v)
  then show ?thesis
    by (simp add: VerifierAgent_run_def)
qed

text \<open>
  C5. The fallback verification is a function of the step results only (not of the
  task, the plan or the flags of the run result). Whenever it returns, the score is
  Python's quotient of the number of COMPLETED steps by the number of steps, rounded to
  the nearest double, and 0 for an empty list; \<open>is_valid\<close> is \<open>score > 1/2\<close>; the
  issues are "Step {n} failed: {error}" for the FAILED steps in list order; there are no
  suggestions; with 4 steps of which 3 are COMPLETED the score is 3/4 and the result is
  valid. When the text-generation service fails, \<^verbatim>\<open>VerifierAgent.run\<close> has the
  outcome of the fallback whatever the history, so verifying the same run result again
  gives the same outcome. The fallback returns whenever the payloads of the steps are as
  the two tools build them; on other payloads the rendering of the report can raise, and
  then the exception is the outcome.
\<close>

theorem C5_fallback_verification:
  "(create_fallback_verification task er = Returned v \<longrightarrow>
      completeness_score v =
        (if length (step_results er) = 0 then 0
         else true_div (success_count (step_results er)) (length (step_results er))) \<and>
      is_valid v = (completeness_score v > 1 / 2) \<and>
      issues v = map issue_line (filter (\<lambda>r. status r = FAILED) (step_results er)) \<and>
      suggestions v = [] \<and>
      (length (step_results er) = 4 \<longrightarrow> success_count (step_results er) = 3 \<longrightarrow>
         completeness_score v = 3 / 4 \<and> is_valid v)) \<and>
   create_fallback_verification task' (er\<lparr>plan := p, success := s, partial_success := ps\<rparr>) =
     create_fallback_verification task er \<and>
   (generate_verification env (trace w) task er = None \<longrightarrow>
      generate_verification env (trace w') task er = None \<longrightarrow>
      fst (VerifierAgent_run env task er w') = fst (VerifierAgent_run env task er w) \<and>
      fst (VerifierAgent_run env task er w) = create_fallback_verification task er) \<and>
   (list_all payload_as_shipped (step_results er) \<longrightarrow>
      (\<exists>v'. create_fallback_verification task er = Returned v'))"
proof -
  have a: "create_fallback_verification task er = Returned v \<longrightarrow>
      completeness_score v =
        (if length (step_results er) = 0 then 0
         else true_div (success_count (step_results er)) (length (step_results er))) \<and>
      is_valid v = (completeness_score v > 1 / 2) \<and>
      issues v = map issue_line (filter (\<lambda>r. status r = FAILED) (step_results er)) \<and>
      suggestions v = [] \<and>
      (length (step_results er) = 4 \<longrightarrow> success_count (step_results er) = 3 \<longrightarrow>
         completeness_score v = 3 / 4 \<and> is_valid v)"
  proof
    assume "create_fallback_verification task er = Returned v"
    from create_fallback_verification_Returned [OF this] show
      "completeness_score v =
        (if length (step_results er) = 0 then 0
         else true_div (success_count (step_results er)) (length (step_results er))) \<and>
      is_valid v = (completeness_score v > 1 / 2) \<and>
      issues v = map issue_line (filter (\<lambda>r. status r = FAILED) (step_results er)) \<and>
      suggestions v = [] \<and>
      (length (step_results er) = 4 \<longrightarrow> success_count (step_results er) = 3 \<longrightarrow>
         completeness_score v = 3 / 4 \<and> is_valid v)"
      by (simp add: true_div_examples)
  qed
  have c: "generate_verification env (trace w) task er = None \<longrightarrow>
      generate_verification env (trace w') task er = None \<longrightarrow>
      fst (VerifierAgent_run env task er w') = fst (VerifierAgent_run env task er w) \<and>
      fst (VerifierAgent_run env task er w) = create_fallback_verification task er"
    by (simp add: VerifierAgent_run_fallback)
  have d: "list_all payload_as_shipped (step_results er) \<longrightarrow>
      (\<exists>v'. create_fallback_verification task er = Returned v')"
    by (simp add: create_fallback_verification_as_shipped)
  from a create_fallback_verification_step_results c d show ?thesis
    by (intro conjI)
qed

theorem C5_fallback_verification_witness:
  "create_fallback_verification ''weather in four cities'' three_of_four =
     Returned \<lparr>is_valid = True, completeness_score = 3 / 4,
       issues = [''Step 2 failed: City not found: Atlantis''], suggestions = []\<rparr> \<and>
   fst (VerifierAgent_run env_github_down ''weather in four cities'' three_of_four world0) =
     create_fallback_verification ''weather in four cities'' three_of_four"
proof -
  have l: "length (step_results three_of_four) = 4"
    and c: "success_count (step_results three_of_four) = 3"
    and f: "filter (\<lambda>r. status r = FAILED) (step_results three_of_four) =
      [\<lparr>sr_step_number = 2, status = FAILED, tool_result = None, retry_count = 3,
          error_message = Some ''City not found: Atlantis''\<rparr>]"
    by (simp_all add: three_of_four_def success_count_def done_step_def)
  have sh: "list_all payload_as_shipped (step_results three_of_four)"
    by (simp add: three_of_four_def done_step_def payload_as_shipped_def sunny_def
        weather_as_shipped_def)
  have i: "issue_line \<lparr>sr_step_number = 2, status = FAILED, tool_result = None, retry_count = 3,
          error_message = Some ''City not found: Atlantis''\<rparr> =
      ''Step 2 failed: City not found: Atlantis''"
    by (simp add: issue_line_def str_int_def str_nat.simps digit_char_def str_opt_def)
  have g: "generate_verification env_github_down (trace world0) ''weather in four cities''
      three_of_four = None"
    by (simp add: env_github_down_def)
  have eq: "v = \<lparr>is_valid = is_valid v, completeness_score = completeness_score v,
      issues = issues v, suggestions = suggestions v\<rparr>" for v :: VerificationResult
    by simp
  let ?V = "create_fallback_verification ''weather in four cities'' three_of_four"
  note T = C5_fallback_verification [where task = "''weather in four cities''"
      and er = three_of_four and env = env_github_down and w = world0 and w' = world0]
  from T sh obtain v where v: "?V = Returned v"
    by blast
  note Tv = C5_fallback_verification [where task = "''weather in four cities''"
      and er = three_of_four and env = env_github_down and w = world0 and w' = world0
      and v = v]
  from Tv v l c have sc: "completeness_score v = 3 / 4" and iv: "is_valid v = True"
    by blast+
  from Tv v have "issues v = map issue_line (filter (\<lambda>r. status r = FAILED) (step_results three_of_four))"
    by blast
  with f i have isv: "issues v = [''Step 2 failed: City not found: Atlantis'']"
    by simp
  from Tv v have su: "suggestions v = []"
    by blast
  from Tv g have run: "fst (VerifierAgent_run env_github_down ''weather in four cities''
      three_of_four world0) = ?V"
    by blast
  have "v = \<lparr>is_valid = True, completeness_score = 3 / 4,
      issues = [''Step 2 failed: City not found: Atlantis''], suggestions = []\<rparr>"
    by (subst eq [of v]) (simp only: sc iv isv su)
  with run v show ?thesis by simp
qed

section \<open>Properties of the fallback planner\<close>

lemma PlannerAgent_run_phases: "phases (snd (PlannerAgent_run env task w)) = phases w"
  by (simp add: PlannerAgent_run_def split: option.split)

lemma plan_for_github: "create_fallback_plan ''github'' = Returned plan_popular"
  unfolding plan_popular_def popular_step_def by code_simp

text \<open>
  C9. Every plan the fallback planner returns has only steps with empty
  \<open>depends_on\<close>. When the lower-cased task contains none of the repository keywords
  and none of the weather keywords, the planner returns the plan with the single step
  1, a GITHUB search whose \<open>query\<close> is the first 50 characters of the task.
\<close>

theorem C9_fallback_plan:
  "(\<forall>pl. create_fallback_plan task = Returned pl \<longrightarrow>
      (\<forall>step \<in> set (steps pl). depends_on step = [])) \<and>
   (\<not> any_keyword github_keywords (py_lower task) \<and>
    \<not> any_keyword weather_keywords (py_lower task) \<longrightarrow>
      create_fallback_plan task =
        Returned
          \<lparr>task_summary = take 200 task,
           steps =
             [\<lparr>step_number = 1, description = ''Search GitHub for relevant repositories'',
               tool = GITHUB,
               parameters = [(''query'', JStr (take 50 task)), (''limit'', JInt 5)],
               depends_on = []\<rparr>],
           reasoning = ''Fallback plan generated from keyword extraction''\<rparr>)"
  by (auto simp: create_fallback_plan_def Let_def split: attempt.splits if_splits)

theorem C9_fallback_plan_witness:
  "create_fallback_plan long_task =
     Returned
       \<lparr>task_summary = long_task,
        steps =
          [\<lparr>step_number = 1, description = ''Search GitHub for relevant repositories'',
            tool = GITHUB,
            parameters = [(''query'', JStr ''what is the tallest mountain on the planet and how''),
                          (''limit'', JInt 5)],
            depends_on = []\<rparr>],
        reasoning = ''Fallback plan generated from keyword extraction''\<rparr> \<and>
   list_all (\<lambda>step. depends_on step = [])
     (steps (case create_fallback_plan ''Find Python repos and weather in London'' of
               Returned pl \<Rightarrow> pl)) \<and>
   map step_number
     (steps (case create_fallback_plan ''Find Python repos and weather in London'' of
               Returned pl \<Rightarrow> pl)) = [1, 2]"
proof -
  have g: "\<not> any_keyword github_keywords (py_lower long_task)"
    by code_simp
  have w: "\<not> any_keyword weather_keywords (py_lower long_task)"
    by code_simp
  have t: "take 50 long_task = ''what is the tallest mountain on the planet and how''"
    "take 200 long_task = long_task"
    by (simp_all add: long_task_def)
  have two: "create_fallback_plan ''Find Python repos and weather in London'' =
      Returned
        \<lparr>task_summary = ''Find Python repos and weather in London'',
         steps =
           [\<lparr>step_number = 1, description = ''Search GitHub repositories'', tool = GITHUB,
             parameters = [(''query'', JStr ''Python repos London''), (''limit'', JInt 5)],
             depends_on = []\<rparr>,
            \<lparr>step_number = 2, description = ''Get weather for London'', tool = WEATHER,
             parameters = [(''city'', JStr ''London'')], depends_on = []\<rparr>],
         reasoning = ''Fallback plan generated from keyword extraction''\<rparr>"
    by code_simp
  from C9_fallback_plan [of long_task] g w t have one: "create_fallback_plan long_task =
     Returned
       \<lparr>task_summary = long_task,
        steps =
          [\<lparr>step_number = 1, description = ''Search GitHub for relevant repositories'',
            tool = GITHUB,
            parameters = [(''query'', JStr ''what is the tallest mountain on the planet and how''),
                          (''limit'', JInt 5)],
            depends_on = []\<rparr>],
        reasoning = ''Fallback plan generated from keyword extraction''\<rparr>"
    by simp
  from C9_fallback_plan [of "''Find Python repos and weather in London''"] two
  have "list_all (\<lambda>step. depends_on step = [])
     (steps (case create_fallback_plan ''Find Python repos and weather in London'' of
               Returned pl \<Rightarrow> pl))"
    by (simp add: list_all_iff)
  with one two show ?thesis by simp
qed

section \<open>Properties of the orchestrator\<close>

lemma retry_each_phases: "phases (snd (retry_each env fs results w)) = phases w"
  by (induction fs arbitrary: results w) (auto simp: case_prod_beta execute_step_phases)

lemma unsuccessful_has_failed:
  assumes "length rs = length ss" "list_all resolved rs" "success_count rs \<noteq> length rs"
  shows "filter (\<lambda>(step, result). status result = FAILED) (zip ss rs) \<noteq> []"
  using assms
proof (induction rs arbitrary: ss)
  case Nil
  then show ?case by (simp add: success_count_def)
next
  case (Cons r rs)
  then obtain s ss' where ss: "ss = s # ss'" by (cases ss) auto
  show ?case
  proof (cases "status r = FAILED")
    case True
    then show ?thesis by (simp add: ss)
  next
    case False
    with Cons.prems have "status r = COMPLETED" by (simp add: resolved_def)
    with Cons.prems ss have "success_count rs \<noteq> length rs" "length rs = length ss'"
        "list_all resolved rs"
      by (simp_all add: success_count_def)
    from Cons.IH [OF this(2,3,1)] show ?thesis by (simp add: ss)
  qed
qed

subsection \<open>The worked examples, run by run\<close>

lemma judged_run:
  assumes "registry w GITHUB = Some GitHubTool"
  shows "AgentOrchestrator_run env_judged ''github'' w =
     (Returned (judged_response (if length (trace w) + 12 < 14 then 1 / 4 else 3 / 4)),
      w\<lparr>trace := trace w @ judged_trace, phases := phases w @ all_phases\<rparr>)"
  using assms
  by (simp add: AgentOrchestrator_run_def PlannerAgent_run_def plan_for_github
       execute_with_callbacks_def ExecutorAgent_run_def env_judged_def plan_popular_def
       popular_step_simps rate_limited_step world0_registry_kept Let_def success_count_def
       VerifierAgent_run_def three_attempts_def retry_failed_steps_def failed_steps_of_def
       judged_response_def run_failed_def popular_failed_def judged_trace_def all_phases_def
       emit_def announce_def)

lemma judged_stages:
  "PlannerAgent_run env_judged ''github'' (announce ''Phase 1: Planning'' world0) =
     (Returned plan_popular,
      world0\<lparr>trace := [PlanRequest ''github''], phases := [''Phase 1: Planning'']\<rparr>)"
  "registry w GITHUB = Some GitHubTool \<Longrightarrow>
   ExecutorAgent_run env_judged plan_popular w =
     (run_failed, w\<lparr>trace := trace w @ three_attempts GitHubTool (parameters popular_step)\<rparr>)"
  "VerifierAgent_run env_judged ''github'' er w =
     (Returned \<lparr>is_valid = False,
       completeness_score = (if length (trace w) < 14 then 1 / 4 else 3 / 4),
       issues = [], suggestions = []\<rparr>,
      w\<lparr>trace := trace w @ [VerifyRequest ''github'']\<rparr>)"
  by (simp_all add: PlannerAgent_run_def plan_for_github ExecutorAgent_run_def env_judged_def
      plan_popular_def popular_step_simps rate_limited_step world0_registry_kept Let_def
      success_count_def VerifierAgent_run_def run_failed_def popular_failed_def emit_def
      announce_def world0_simps)

lemma recovering_first_run:
  "AgentOrchestrator_run env_recovering ''github'' world0 = (Returned first_response, world1)"
  by (simp add: AgentOrchestrator_run_def PlannerAgent_run_def plan_for_github
       execute_with_callbacks_def ExecutorAgent_run_def env_recovering_def plan_popular_def
       popular_step_simps rate_limited_step world0_registry_kept Let_def success_count_def
       VerifierAgent_run_def three_attempts_def retry_failed_steps_def failed_steps_of_def
       first_response_def run_failed_def popular_failed_def judged_trace_def all_phases_def
       emit_def announce_def world0_simps world1_def shipped_simps sunny_def
       str_int_def str_nat.simps digit_char_def str_opt_def)

lemma recovering_second_run:
  "AgentOrchestrator_run env_recovering ''github'' world1 = (Returned second_response, world2)"
  by (simp add: AgentOrchestrator_run_def PlannerAgent_run_def plan_for_github
       execute_with_callbacks_def ExecutorAgent_run_def env_recovering_def plan_popular_def
       popular_step_simps first_attempt_succeeds [where t = GitHubTool and r = repos_found]
       world0_registry_kept Let_def success_count_def ToolRegistry_get_def
       VerifierAgent_run_def three_attempts_def repos_found_def
       second_response_def judged_trace_def all_phases_def
       emit_def announce_def world0_simps world1_def world2_def shipped_simps sunny_def)

lemma recovering_stages:
  "PlannerAgent_run env_recovering ''github'' (announce ''Phase 1: Planning'' world1) =
     (Returned plan_popular,
      world1\<lparr>trace := judged_trace @ [PlanRequest ''github''],
             phases := all_phases @ [''Phase 1: Planning'']\<rparr>)"
  "registry w GITHUB = Some GitHubTool \<Longrightarrow> 13 \<le> length (trace w) \<Longrightarrow>
   ExecutorAgent_run env_recovering plan_popular w =
     (execution second_response, emit (Invoke GitHubTool (parameters popular_step)) w)"
  by (simp_all add: PlannerAgent_run_def plan_for_github env_recovering_def emit_def
      announce_def world1_def ExecutorAgent_run_def plan_popular_def popular_step_simps
      first_attempt_succeeds [where t = GitHubTool and r = repos_found] ToolRegistry_get_def
      repos_found_def second_response_def success_count_def)

lemma planned_execution:
  assumes "registry w GITHUB = Some GitHubTool"
  shows "ExecutorAgent_run env_planned plan_github_weather w =
     (run_blocked, w\<lparr>trace := trace w @ three_attempts GitHubTool (parameters github_step)\<rparr>)"
  using assms
  by (simp add: ExecutorAgent_run_def plan_github_weather_def env_planned_def env_github_down_def
      rate_limited_step github_step_simps weather_step_simps Let_def success_count_def
      dependencies_not_met_def run_blocked_def github_failed_def weather_blocked_def)

lemma planned_recovery:
  assumes "registry w GITHUB = Some GitHubTool" "registry w WEATHER = Some WeatherTool"
  shows "retry_each env_planned (failed_steps_of plan_github_weather run_blocked)
      (step_results run_blocked) w =
     ([github_failed, weather_done],
      w\<lparr>trace := trace w @ three_attempts GitHubTool (parameters github_step) @
          [Invoke WeatherTool (parameters weather_step)]\<rparr>)"
  using assms
  by (simp add: failed_steps_of_def plan_github_weather_def run_blocked_def github_failed_def
      weather_blocked_def env_planned_def env_github_down_def rate_limited_step
      github_step_simps weather_step_simps
      first_attempt_succeeds [where t = WeatherTool and r = sunny] ToolRegistry_get_def
      sunny_def weather_done_def emit_def three_attempts_def)

lemma planned_verification:
  "VerifierAgent_run env_planned task er w =
     (create_fallback_verification task er, emit (VerifyRequest task) w)"
  by (simp add: VerifierAgent_run_def env_planned_def env_github_down_def)

lemma blocked_verification:
  "create_fallback_verification task run_blocked =
   Returned
    \<lparr>is_valid = False, completeness_score = 0,
     issues = [''Step 1 failed: GitHub API error: 403 (Rate limit exceeded)'',
               ''Step 2 failed: Dependencies not met''],
     suggestions = []\<rparr>"
  by (simp add: shipped_simps run_blocked_def github_failed_def weather_blocked_def
      success_count_def str_int_def str_nat.simps digit_char_def str_opt_def)

lemma recovered_verification:
  "create_fallback_verification task
     (run_blocked\<lparr>step_results := [github_failed, weather_done], success := False,
        partial_success := True\<rparr>) =
   Returned
    \<lparr>is_valid = False, completeness_score = 1 / 2,
     issues = [''Step 1 failed: GitHub API error: 403 (Rate limit exceeded)''],
     suggestions = []\<rparr>"
  by (simp add: shipped_simps sunny_def run_blocked_def github_failed_def weather_done_def
      success_count_def str_int_def str_nat.simps digit_char_def str_opt_def)

lemma planned_run:
  "fst (AgentOrchestrator_run env_planned ''repos, then weather'' world0) =
     Returned planned_response"
proof -
  let ?t = "''repos, then weather''"
  let ?w1 = "emit (PlanRequest ?t) (announce ''Phase 1: Planning'' world0)"
  let ?w2 = "(announce ''Phase 2: Execution'' ?w1)
      \<lparr>trace := trace (announce ''Phase 2: Execution'' ?w1) @
         three_attempts GitHubTool (parameters github_step)\<rparr>"
  let ?w3 = "emit (VerifyRequest ?t) (announce ''Phase 3: Verification'' ?w2)"
  let ?v = "\<lparr>is_valid = False, completeness_score = 0,
     issues = [''Step 1 failed: GitHub API error: 403 (Rate limit exceeded)'',
               ''Step 2 failed: Dependencies not met''],
     suggestions = []\<rparr>"
  have p: "PlannerAgent_run env_planned ?t (announce ''Phase 1: Planning'' world0) =
      (Returned plan_github_weather, ?w1)"
    by (simp add: PlannerAgent_run_def env_planned_def env_github_down_def)
  have e: "ExecutorAgent_run env_planned plan_github_weather (announce ''Phase 2: Execution'' ?w1) =
      (run_blocked, ?w2)"
    by (rule planned_execution) (simp add: world0_registry_kept world0_simps)
  have reg: "registry (announce ''Phase 4: Retrying failed steps'' ?w3) GITHUB = Some GitHubTool"
    "registry (announce ''Phase 4: Retrying failed steps'' ?w3) WEATHER = Some WeatherTool"
    by (simp_all add: world0_registry_kept world0_simps)
  have ne: "failed_steps_of plan_github_weather run_blocked \<noteq> []"
    by (simp add: failed_steps_of_def plan_github_weather_def run_blocked_def
        weather_blocked_def github_failed_def)
  have s: "\<not> success run_blocked" "success_count [github_failed, weather_done] = 1"
    by (simp_all add: run_blocked_def success_count_def github_failed_def weather_done_def)
  have upd: "run_blocked\<lparr>step_results := [github_failed, weather_done], success := False,
        partial_success := True\<rparr> =
      \<lparr>plan = plan_github_weather, step_results = [github_failed, weather_done],
       success = False, partial_success = True\<rparr>"
    by (simp add: run_blocked_def)
  obtain w5 where "retry_failed_steps env_planned ?t plan_github_weather run_blocked ?v
      (announce ''Phase 4: Retrying failed steps'' ?w3) =
    (Returned
      (\<lparr>plan = plan_github_weather, step_results = [github_failed, weather_done],
        success = False, partial_success = True\<rparr>,
       \<lparr>is_valid = False, completeness_score = 1 / 2,
        issues = [''Step 1 failed: GitHub API error: 403 (Rate limit exceeded)''],
        suggestions = []\<rparr>), w5)"
    using ne s(2)
    by (simp add: retry_failed_steps_def Let_def planned_recovery [OF reg] planned_verification
        recovered_verification upd [symmetric])
  then show ?thesis
    using s(1)
    by (simp add: AgentOrchestrator_run_def p execute_with_callbacks_def e planned_verification
        blocked_verification planned_response_def)
qed

subsection \<open>Claim C4\<close>

text \<open>
  C4. Take a run whose planning returned a plan \<open>pl\<close>, whose execution gave
  \<open>er\<close> and whose first verification returned \<open>v\<close>. The phase-4 announcement is
  logged, after the three others, exactly when \<open>er\<close> is not a success and the score
  of \<open>v\<close> is below 1. Otherwise, and in particular whenever \<open>er\<close> is a success,
  the run returns a response that carries \<open>er\<close> and \<open>v\<close>, and nothing happens
  after the first verification. In the recovery case the verifier is run again on the
  updated run result: the step list \<open>rs\<close> left by the re-executions, with
  \<open>success\<close> and \<open>partial_success\<close> recomputed from \<open>rs\<close>; the run ends in
  the state this second verification leaves, returns a response carrying the updated run
  result and the new verification when it returns one, and raises its exception when it
  raises, which it does not when the text-generation service answers or the payloads in
  \<open>rs\<close> are as the tools build them. Every response returned has as \<open>success\<close>
  the \<open>is_valid\<close> of its verification and the \<open>success\<close> of its run result.
\<close>

theorem C4_recovery_condition:
  assumes planned: "PlannerAgent_run env task (announce ''Phase 1: Planning'' w) = (Returned pl, w1)"
    and executed: "ExecutorAgent_run env pl (announce ''Phase 2: Execution'' w1) = (er, w2)"
    and verified: "VerifierAgent_run env task er (announce ''Phase 3: Verification'' w2) =
        (Returned v, w3)"
    and recovered: "retry_each env (failed_steps_of pl er) (step_results er)
        (announce ''Phase 4: Retrying failed steps'' w3) = (rs, w4)"
    and updated: "er' = er\<lparr>step_results := rs, success := (success_count rs = length rs),
        partial_success := (0 < success_count rs \<and> success_count rs \<noteq> length rs)\<rparr>"
  shows "phases (snd (AgentOrchestrator_run env task w)) =
       phases w @ [''Phase 1: Planning'', ''Phase 2: Execution'', ''Phase 3: Verification''] @
       (if \<not> success er \<and> completeness_score v < 1
        then [''Phase 4: Retrying failed steps''] else []) \<and>
     ((''Phase 4: Retrying failed steps'' \<in>
         set (drop (length (phases w)) (phases (snd (AgentOrchestrator_run env task w))))) =
        (\<not> success er \<and> completeness_score v < 1)) \<and>
     (success er \<longrightarrow>
        (\<exists>resp. AgentOrchestrator_run env task w = (Returned resp, w3) \<and>
           execution resp = er \<and> verification resp = v)) \<and>
     (\<not> (\<not> success er \<and> completeness_score v < 1) \<longrightarrow>
        (\<exists>resp. AgentOrchestrator_run env task w = (Returned resp, w3) \<and>
           execution resp = er \<and> verification resp = v)) \<and>
     (\<not> success er \<and> completeness_score v < 1 \<longrightarrow>
        snd (AgentOrchestrator_run env task w) = snd (VerifierAgent_run env task er' w4) \<and>
        (\<forall>v'. fst (VerifierAgent_run env task er' w4) = Returned v' \<longrightarrow>
           (\<exists>resp. fst (AgentOrchestrator_run env task w) = Returned resp \<and>
              execution resp = er' \<and> verification resp = v')) \<and>
        (\<forall>e. fst (VerifierAgent_run env task er' w4) = Raised e \<longrightarrow>
           fst (AgentOrchestrator_run env task w) = Raised e) \<and>
        (generate_verification env (trace w4) task er' \<noteq> None \<or>
         list_all payload_as_shipped rs \<longrightarrow>
           (\<exists>resp. fst (AgentOrchestrator_run env task w) = Returned resp))) \<and>
     (\<forall>resp. fst (AgentOrchestrator_run env task w) = Returned resp \<longrightarrow>
        ar_success resp = (is_valid (verification resp) \<and> success (execution resp)))"
proof -
  let ?P = "[''Phase 1: Planning'', ''Phase 2: Execution'', ''Phase 3: Verification'']"
  have p1: "phases w1 = phases w @ [''Phase 1: Planning'']"
    using PlannerAgent_run_phases [of env task "announce ''Phase 1: Planning'' w"] planned
    by simp
  have p2: "phases w2 = phases w1 @ [''Phase 2: Execution'']"
    using ExecutorAgent_run_shape(6) [OF executed] by simp
  have p3: "phases w3 = phases w2 @ [''Phase 3: Verification'']"
    using VerifierAgent_run_phases [of env task er "announce ''Phase 3: Verification'' w2"] verified
    by simp
  have p123: "phases w3 = phases w @ ?P"
    by (simp add: p1 p2 p3)
  show ?thesis
  proof (cases "\<not> success er \<and> completeness_score v < 1")
    case False
    then have cond: "(\<not> success er \<and> completeness_score v < 1) = False"
      by simp
    have run: "AgentOrchestrator_run env task w =
        (Returned \<lparr>ar_task = task, ar_plan = pl, execution = er, verification = v,
           ar_success = (is_valid v \<and> success er)\<rparr>, w3)"
      by (simp add: AgentOrchestrator_run_def execute_with_callbacks_def planned executed
          verified cond)
    show ?thesis
      unfolding run using False p123 by auto
  next
    case True
    obtain vr w5 where reverified: "VerifierAgent_run env task er' w4 = (vr, w5)"
      by (cases "VerifierAgent_run env task er' w4")
    from True ExecutorAgent_run_shape(2,3,5) [OF executed]
    have "failed_steps_of pl er \<noteq> []"
      unfolding failed_steps_of_def by (intro unsuccessful_has_failed) simp_all
    then have rec: "retry_failed_steps env task pl er v
        (announce ''Phase 4: Retrying failed steps'' w3) =
        (case vr of Raised e \<Rightarrow> (Raised e, w5) | Returned v' \<Rightarrow> (Returned (er', v'), w5))"
      using recovered reverified [unfolded updated]
      by (simp add: retry_failed_steps_def Let_def updated split: attempt.split)
    have run: "AgentOrchestrator_run env task w =
        (case vr of
           Raised e \<Rightarrow> (Raised e, w5)
         | Returned v' \<Rightarrow>
             (Returned \<lparr>ar_task = task, ar_plan = pl, execution = er', verification = v',
                ar_success = (is_valid v' \<and> success er')\<rparr>, w5))"
      using True planned executed verified rec
      by (simp add: AgentOrchestrator_run_def execute_with_callbacks_def split: attempt.split)
    have "phases w4 = phases w3 @ [''Phase 4: Retrying failed steps'']"
      using retry_each_phases [of env "failed_steps_of pl er" "step_results er"
          "announce ''Phase 4: Retrying failed steps'' w3"] recovered
      by simp
    moreover have "phases w5 = phases w4"
      using VerifierAgent_run_phases [of env task er' w4] reverified by simp
    ultimately have p5: "phases w5 = phases w @ ?P @ [''Phase 4: Retrying failed steps'']"
      by (simp add: p123)
    have s5: "snd (AgentOrchestrator_run env task w) = w5"
      unfolding run by (cases vr) simp_all
    have ret: "generate_verification env (trace w4) task er' \<noteq> None \<or>
        list_all payload_as_shipped rs \<longrightarrow> (\<exists>v'. vr = Returned v')"
    proof
      assume "generate_verification env (trace w4) task er' \<noteq> None \<or>
        list_all payload_as_shipped rs"
      then have "generate_verification env (trace w4) task er' \<noteq> None \<or>
        list_all payload_as_shipped (step_results er')"
        by (simp add: updated)
      from VerifierAgent_run_returns [OF this] reverified show "\<exists>v'. vr = Returned v'"
        by simp
    qed
    show ?thesis
    proof (cases vr)
      case (Returned v')
      show ?thesis
        unfolding s5 unfolding run Returned
        using True p5 reverified Returned by simp
    next
      case (Raised e)
      show ?thesis
        unfolding s5 unfolding run Raised
        using True p5 reverified Raised ret by simp
    qed
  qed
qed

theorem C4_recovery_condition_witness:
  "fst (AgentOrchestrator_run env_judged ''github'' world0) =
     Returned (judged_response (1 / 4)) \<and>
   phases (snd (AgentOrchestrator_run env_judged ''github'' world0)) =
     [''Phase 1: Planning'', ''Phase 2: Execution'', ''Phase 3: Verification'',
      ''Phase 4: Retrying failed steps''] \<and>
   fst (AgentOrchestrator_run env_recovering ''github'' world1) = Returned second_response \<and>
   phases (snd (AgentOrchestrator_run env_recovering ''github'' world1)) =
     all_phases @ [''Phase 1: Planning'', ''Phase 2: Execution'', ''Phase 3: Verification'']"
proof -
  let ?w1 = "world0\<lparr>trace := [PlanRequest ''github''], phases := [''Phase 1: Planning'']\<rparr>"
  let ?e = "ExecutorAgent_run env_judged plan_popular (announce ''Phase 2: Execution'' ?w1)"
  let ?a3 = "announce ''Phase 3: Verification'' (snd ?e)"
  let ?v = "\<lparr>is_valid = False,
      completeness_score = (if length (trace ?a3) < 14 then 1 / 4 else 3 / 4 :: rat),
      issues = [], suggestions = []\<rparr>"
  let ?w3 = "?a3\<lparr>trace := trace ?a3 @ [VerifyRequest ''github'']\<rparr>"
  let ?r = "retry_each env_judged (failed_steps_of plan_popular (fst ?e)) (step_results (fst ?e))
      (announce ''Phase 4: Retrying failed steps'' ?w3)"
  have e: "fst ?e = run_failed"
    by (simp add: judged_stages(2) world0_registry_kept world0_simps)
  have v: "completeness_score ?v = 1 / 4"
    by (simp add: judged_stages(2) world0_registry_kept world0_simps three_attempts_def
        announce_def)
  have a1: "PlannerAgent_run env_judged ''github'' (announce ''Phase 1: Planning'' world0) =
      (Returned plan_popular, ?w1)"
    by (rule judged_stages(1))
  have a2: "?e = (fst ?e, snd ?e)"
    by simp
  have a3: "VerifierAgent_run env_judged ''github'' (fst ?e) ?a3 = (Returned ?v, ?w3)"
    by (rule judged_stages(3))
  have a4: "?r = (fst ?r, snd ?r)"
    by simp
  note T = C4_recovery_condition [OF a1 a2 a3 a4 refl]
  from T have ph: "phases (snd (AgentOrchestrator_run env_judged ''github'' world0)) =
       phases world0 @
       [''Phase 1: Planning'', ''Phase 2: Execution'', ''Phase 3: Verification''] @
       (if \<not> success (fst ?e) \<and> completeness_score ?v < 1
        then [''Phase 4: Retrying failed steps''] else [])"
    by (rule conjunct1)
  have cond: "(\<not> success (fst ?e) \<and> completeness_score ?v < 1) = True"
    unfolding v e by (simp add: run_failed_def)
  from ph have judged: "phases (snd (AgentOrchestrator_run env_judged ''github'' world0)) =
     [''Phase 1: Planning'', ''Phase 2: Execution'', ''Phase 3: Verification'',
      ''Phase 4: Retrying failed steps'']"
    unfolding cond by (simp add: world0_simps)
  have j1: "fst (AgentOrchestrator_run env_judged ''github'' world0) =
      Returned (judged_response (1 / 4))"
    by (simp add: judged_run world0_simps)
  let ?u1 = "world1\<lparr>trace := judged_trace @ [PlanRequest ''github''],
      phases := all_phases @ [''Phase 1: Planning'']\<rparr>"
  let ?f = "ExecutorAgent_run env_recovering plan_popular (announce ''Phase 2: Execution'' ?u1)"
  let ?x = "VerifierAgent_run env_recovering ''github'' (fst ?f)
      (announce ''Phase 3: Verification'' (snd ?f))"
  let ?s = "retry_each env_recovering (failed_steps_of plan_popular (fst ?f))
      (step_results (fst ?f)) (announce ''Phase 4: Retrying failed steps'' (snd ?x))"
  have f: "fst ?f = execution second_response"
    by (simp add: recovering_stages(2) world0_registry_kept world1_def world0_simps
        judged_trace_def three_attempts_def)
  have sf: "success (fst ?f) = True"
    unfolding f by (simp add: second_response_def)
  have "list_all payload_as_shipped (step_results (fst ?f))"
    unfolding f
    by (simp add: second_response_def payload_as_shipped_def repos_found_def
        github_as_shipped_def repo_as_shipped_def dict_lookup_def)
  then obtain x where x: "fst ?x = Returned x"
    using VerifierAgent_run_returns by blast
  have b1: "PlannerAgent_run env_recovering ''github'' (announce ''Phase 1: Planning'' world1) =
      (Returned plan_popular, ?u1)"
    by (rule recovering_stages(1))
  have b2: "?f = (fst ?f, snd ?f)"
    by simp
  have b3: "?x = (Returned x, snd ?x)"
    using x by (cases ?x) simp
  have b4: "?s = (fst ?s, snd ?s)"
    by simp
  note U = C4_recovery_condition [OF b1 b2 b3 b4 refl]
  from U have ph2: "phases (snd (AgentOrchestrator_run env_recovering ''github'' world1)) =
       phases world1 @
       [''Phase 1: Planning'', ''Phase 2: Execution'', ''Phase 3: Verification''] @
       (if \<not> success (fst ?f) \<and> completeness_score x < 1
        then [''Phase 4: Retrying failed steps''] else [])"
    by (rule conjunct1)
  from ph2 have rec: "phases (snd (AgentOrchestrator_run env_recovering ''github'' world1)) =
      all_phases @ [''Phase 1: Planning'', ''Phase 2: Execution'', ''Phase 3: Verification'']"
    unfolding sf by (simp add: world1_def)
  have r2: "fst (AgentOrchestrator_run env_recovering ''github'' world1) = Returned second_response"
    by (simp add: recovering_second_run)
  from judged j1 r2 rec show ?thesis
    by simp
qed

subsection \<open>Claim C1\<close>

lemma replace_first_at:
  "\<forall>r \<in> set done. sr_step_number r \<noteq> n \<Longrightarrow> sr_step_number r0 = n \<Longrightarrow>
   replace_first n new_result (done @ r0 # rs) = done @ new_result # rs"
  by (induction "done") auto

lemma retry_each_positionwise:
  assumes "distinct (map step_number ss)"
    and "map sr_step_number rs = map step_number ss"
    and "\<forall>r \<in> set done. sr_step_number r \<notin> step_number ` set ss"
  shows "retry_each env (filter (\<lambda>(step, result). status result = FAILED) (zip ss rs))
           (done @ rs) w =
         (case reexecute_failed env ss rs w of (rs', w') \<Rightarrow> (done @ rs', w'))"
  using assms
proof (induction ss arbitrary: rs "done" w)
  case Nil
  then show ?case by simp
next
  case (Cons step ss)
  from Cons.prems(2) obtain r rs' where rs: "rs = r # rs'"
      and nr: "sr_step_number r = step_number step"
      and al: "map sr_step_number rs' = map step_number ss"
    by (cases rs) auto
  from Cons.prems(1) have di: "distinct (map step_number ss)"
      and fresh: "step_number step \<notin> step_number ` set ss"
    by auto
  from Cons.prems(3) have old: "\<forall>x \<in> set done. sr_step_number x \<noteq> step_number step"
      and old': "\<forall>x \<in> set done. sr_step_number x \<notin> step_number ` set ss"
    by auto
  show ?case
  proof (cases "status r = FAILED")
    case True
    obtain new_result w1 where ex: "execute_step env step w = (new_result, w1)"
      by (cases "execute_step env step w")
    then have nn: "sr_step_number new_result = step_number step"
      using execute_step_number [of env step w] by simp
    have "\<forall>x \<in> set (done @ [new_result]). sr_step_number x \<notin> step_number ` set ss"
      using old' fresh nn by auto
    from Cons.IH [OF di al this, of w1]
    have "retry_each env (filter (\<lambda>(step, result). status result = FAILED) (zip ss rs'))
        (done @ new_result # rs') w1 =
      (case reexecute_failed env ss rs' w1 of (rs'', w') \<Rightarrow> (done @ new_result # rs'', w'))"
      by simp
    with True ex show ?thesis
      by (simp add: rs replace_first_at [OF old nr] split: prod.split)
  next
    case False
    have "\<forall>x \<in> set (done @ [r]). sr_step_number x \<notin> step_number ` set ss"
      using old' fresh nr by auto
    from Cons.IH [OF di al this, of w]
    have "retry_each env (filter (\<lambda>(step, result). status result = FAILED) (zip ss rs'))
        (done @ r # rs') w =
      (case reexecute_failed env ss rs' w of (rs'', w') \<Rightarrow> (done @ r # rs'', w'))"
      by simp
    with False show ?thesis
      by (simp add: rs split: prod.split)
  qed
qed

text \<open>
  What the recovery loop does, position by position. In a plan with distinct step
  numbers and a step list aligned with it (as \<^verbatim>\<open>ExecutorAgent.run\<close> leaves it),
  the loop re-executes every FAILED step exactly once, in plan order, and puts the new
  result in the place of the old one; the other entries stay. The re-execution is
  \<^verbatim>\<open>_execute_step\<close>, whose outcome does not depend on \<open>depends_on\<close>.
\<close>

lemma retry_failed_steps_positionwise:
  assumes "distinct (map step_number (steps pl))"
    and "map sr_step_number (step_results er) = map step_number (steps pl)"
  shows "retry_each env (failed_steps_of pl er) (step_results er) w =
           reexecute_failed env (steps pl) (step_results er) w"
    and "fst (retry_failed_steps env task pl er v w) = Returned (er', v') \<Longrightarrow>
         step_results er' = fst (reexecute_failed env (steps pl) (step_results er) w)"
    and "execute_step env (step\<lparr>depends_on := deps\<rparr>) w' = execute_step env step w'"
proof -
  from retry_each_positionwise [OF assms, of "[]" env w]
  show loop: "retry_each env (failed_steps_of pl er) (step_results er) w =
      reexecute_failed env (steps pl) (step_results er) w"
    by (simp add: failed_steps_of_def)
  show "step_results er' = fst (reexecute_failed env (steps pl) (step_results er) w)"
    if ret: "fst (retry_failed_steps env task pl er v w) = Returned (er', v')"
  proof (cases "failed_steps_of pl er = []")
    case True
    with loop have "reexecute_failed env (steps pl) (step_results er) w = (step_results er, w)"
      by simp
    with True ret show ?thesis
      by (simp add: retry_failed_steps_def)
  next
    case False
    obtain rs w1 where r: "reexecute_failed env (steps pl) (step_results er) w = (rs, w1)"
      by (cases "reexecute_failed env (steps pl) (step_results er) w")
    with loop have "retry_each env (failed_steps_of pl er) (step_results er) w = (rs, w1)"
      by simp
    with False r ret show ?thesis
      by (auto simp: retry_failed_steps_def Let_def split: prod.splits attempt.splits)
  qed
  show "execute_step env (step\<lparr>depends_on := deps\<rparr>) w' = execute_step env step w'"
    by (rule execute_step_ignores_depends_on)
qed

text \<open>
  C1. The recovery loop re-executes each FAILED step once and puts the new result in
  the place of the old one, but it does not evaluate the step against any dependency
  snapshot: the plan runner calls \<^verbatim>\<open>_execute_step\<close> only after
  \<^verbatim>\<open>_dependencies_met\<close>, the recovery loop calls it directly. Here the weather step
  depends on the repository search, which fails; in the run the weather step is FAILED
  with "Dependencies not met", and the results recorded by the run do not meet its
  dependencies, so a step executor given that snapshot fails it again. Recovery invokes
  the weather tool: in the response the weather step is COMPLETED with the tool's
  payload, while the step it depends on is still FAILED.
\<close>

theorem C1_recovered_step_not_checked_against_dependencies:
  "fst (ExecutorAgent_run env_planned plan_github_weather world0) = run_blocked \<and>
   step_results run_blocked ! 1 =
     \<lparr>sr_step_number = 2, status = FAILED, tool_result = None, retry_count = 0,
      error_message = Some ''Dependencies not met''\<rparr> \<and>
   \<not> dependencies_met (depends_on (steps plan_github_weather ! 1))
       [1 \<mapsto> step_results run_blocked ! 0] \<and>
   fst (AgentOrchestrator_run env_planned ''repos, then weather'' world0) =
     Returned planned_response \<and>
   map status (step_results (execution planned_response)) = [FAILED, COMPLETED] \<and>
   tool_result (step_results (execution planned_response) ! 1) = Some sunny \<and>
   step_results (execution planned_response) ! 1 \<noteq>
     fst (execute_step_checked env_planned (steps plan_github_weather ! 1)
            [1 \<mapsto> step_results run_blocked ! 0, 2 \<mapsto> step_results run_blocked ! 1] world0)"
proof -
  have "registry world0 GITHUB = Some GitHubTool"
    by (simp add: world0_simps)
  from planned_execution [OF this] planned_run show ?thesis
    by (simp add: run_blocked_def weather_blocked_def github_failed_def planned_response_def
        weather_done_def plan_github_weather_def weather_step_simps execute_step_checked_def
        dependencies_not_met_def)
qed

subsection \<open>Claim C3\<close>

lemma attempt_no_0: "attempt_no env task w 0 = fst (AgentOrchestrator_run env task w)"
  by (simp add: attempt_no_def)

lemma attempt_no_Suc:
  "attempt_no env task w (Suc i) =
     attempt_no env task (snd (AgentOrchestrator_run env task w)) i"
  by (simp add: attempt_no_def)

lemma attempts_loop_success:
  assumes "i < k"
    and "\<forall>j<i. \<exists>r'. attempt_no env task w j = Returned r' \<and> \<not> ar_success r'"
    and "attempt_no env task w i = Returned r" and "ar_success r"
  shows "attempts_loop env task k best w = (Returned (Some r), world_after env task (Suc i) w)"
  using assms
proof (induction i arbitrary: k best w)
  case 0
  then obtain k' where k: "k = Suc k'" by (cases k) auto
  from 0 obtain w' where "AgentOrchestrator_run env task w = (Returned r, w')"
    by (cases "AgentOrchestrator_run env task w") (simp add: attempt_no_0)
  with 0 show ?case
    by (simp add: k)
next
  case (Suc i)
  then obtain k' where k: "k = Suc k'" and lt: "i < k'" by (cases k) auto
  from Suc.prems(2) obtain r0 where r0: "attempt_no env task w 0 = Returned r0" "\<not> ar_success r0"
    by blast
  from r0 obtain w' where run: "AgentOrchestrator_run env task w = (Returned r0, w')"
    by (cases "AgentOrchestrator_run env task w") (simp add: attempt_no_0)
  have shift: "attempt_no env task w (Suc j) = attempt_no env task w' j" for j
    by (simp add: attempt_no_Suc run)
  have earlier: "\<forall>j<i. \<exists>r'. attempt_no env task w' j = Returned r' \<and> \<not> ar_success r'"
    using Suc.prems(2) by (auto simp: shift [symmetric])
  have "attempt_no env task w' i = Returned r"
    using Suc.prems(3) by (simp add: shift)
  from Suc.IH [OF lt earlier this Suc.prems(4), of "keep_best best r0"]
  show ?case
    using run r0 by (simp add: k)
qed

text \<open>What \<^verbatim>\<open>best_response\<close> holds after a list of unsuccessful responses.\<close>

lemma attempts_loop_exhausted:
  assumes "map (attempt_no env task w) [0..<k] = map Returned rs"
    and "\<forall>r \<in> set rs. \<not> ar_success r"
  shows "attempts_loop env task k best w =
     (Returned (foldl keep_best best rs), world_after env task k w)"
  using assms
proof (induction k arbitrary: best w rs)
  case 0
  then show ?case by simp
next
  case (Suc k)
  have upt: "[0..<Suc k] = 0 # map Suc [0..<k]"
    by (simp add: upt_conv_Cons map_Suc_upt del: upt_Suc)
  from Suc.prems(1) obtain r0 rs' where rs: "rs = r0 # rs'"
      and r0: "attempt_no env task w 0 = Returned r0"
      and rest: "map (attempt_no env task w \<circ> Suc) [0..<k] = map Returned rs'"
    unfolding upt by (cases rs) auto
  from r0 obtain w' where run: "AgentOrchestrator_run env task w = (Returned r0, w')"
    by (cases "AgentOrchestrator_run env task w") (simp add: attempt_no_0)
  have "map (attempt_no env task w') [0..<k] = map Returned rs'"
    using rest by (simp add: attempt_no_Suc o_def run)
  from Suc.IH [OF this, of "keep_best best r0"] Suc.prems(2) rs
  show ?case
    using run by simp
qed

lemma keep_best_Some:
  "\<exists>b'. foldl keep_best (Some b) rs = Some b' \<and> (b' = b \<or> b' \<in> set rs) \<and>
        score_of b \<le> score_of b' \<and> (\<forall>r \<in> set rs. score_of r \<le> score_of b')"
proof (induction rs arbitrary: b)
  case Nil
  show ?case by simp
next
  case (Cons r rs)
  show ?case
  proof (cases "score_of r > score_of b")
    case True
    from Cons.IH [of r] True show ?thesis
      by (auto simp: keep_best_def score_of_def)
  next
    case False
    from Cons.IH [of b] False show ?thesis
      by (auto simp: keep_best_def score_of_def)
  qed
qed

lemma keep_best_None:
  "rs \<noteq> [] \<Longrightarrow>
   \<exists>b. foldl keep_best None rs = Some b \<and> b \<in> set rs \<and> (\<forall>r \<in> set rs. score_of r \<le> score_of b)"
proof (cases rs)
  case Nil
  assume "rs \<noteq> []"
  with Nil show ?thesis by simp
next
  case (Cons r rs')
  from keep_best_Some [of r rs'] show ?thesis
    by (auto simp: Cons keep_best_def)
qed

lemma judged_attempts:
  "attempt_no env_judged ''github'' world0 0 = Returned (judged_response (1 / 4))"
  "attempt_no env_judged ''github'' world0 1 = Returned (judged_response (3 / 4))"
  "world_after env_judged ''github'' 2 world0 =
     world0\<lparr>trace := judged_trace @ judged_trace, phases := all_phases @ all_phases\<rparr>"
  by (simp_all add: attempt_no_def judged_run world0_simps eval_nat_numeral judged_trace_def
      three_attempts_def)

lemma recovering_attempts:
  "attempt_no env_recovering ''github'' world0 0 = Returned first_response"
  "attempt_no env_recovering ''github'' world0 1 = Returned second_response"
  "world_after env_recovering ''github'' 2 world0 = world2"
  by (simp_all add: attempt_no_def recovering_first_run recovering_second_run eval_nat_numeral)

text \<open>
  C3. Let the attempts be the runs \<^verbatim>\<open>run_with_retry\<close> would make one after the
  other. If attempt \<open>i\<close> (below the bound) is the first whose response has
  \<open>success\<close>, the call returns that response and stops there: exactly \<open>i + 1\<close>
  runs have taken place. If the bound is positive and none of the attempts succeeds, the
  call makes them all and returns one of their responses, whose score no attempt exceeds.
  With two unsuccessful attempts it returns the second when its score is strictly
  greater and the first otherwise.
\<close>

theorem C3_run_with_retry:
  "(i < nat m \<and>
    (\<forall>j<i. \<exists>r'. attempt_no env task w j = Returned r' \<and> \<not> ar_success r') \<and>
    attempt_no env task w i = Returned r \<and> ar_success r \<longrightarrow>
      run_with_retry env task m w = (Returned (Some r), world_after env task (Suc i) w)) \<and>
   (0 < m \<and>
    (\<forall>j<nat m. \<exists>r'. attempt_no env task w j = Returned r' \<and> \<not> ar_success r') \<longrightarrow>
      (\<exists>k<nat m. \<exists>b. attempt_no env task w k = Returned b \<and>
         run_with_retry env task m w = (Returned (Some b), world_after env task (nat m) w) \<and>
         (\<forall>j<nat m. \<forall>r'. attempt_no env task w j = Returned r' \<longrightarrow>
            completeness_score (verification r') \<le> completeness_score (verification b)))) \<and>
   (attempt_no env task w 0 = Returned r0 \<and> \<not> ar_success r0 \<and>
    attempt_no env task w 1 = Returned r1 \<and> \<not> ar_success r1 \<longrightarrow>
      run_with_retry env task 2 w =
        (Returned (Some (if completeness_score (verification r1) >
                            completeness_score (verification r0) then r1 else r0)),
         world_after env task 2 w))"
proof (intro conjI impI)
  assume "i < nat m \<and>
    (\<forall>j<i. \<exists>r'. attempt_no env task w j = Returned r' \<and> \<not> ar_success r') \<and>
    attempt_no env task w i = Returned r \<and> ar_success r"
  then show "run_with_retry env task m w = (Returned (Some r), world_after env task (Suc i) w)"
    unfolding run_with_retry_def by (intro attempts_loop_success) simp_all
next
  assume a: "0 < m \<and>
    (\<forall>j<nat m. \<exists>r'. attempt_no env task w j = Returned r' \<and> \<not> ar_success r')"
  then obtain f where f: "\<forall>j<nat m. attempt_no env task w j = Returned (f j) \<and> \<not> ar_success (f j)"
    by metis
  let ?rs = "map f [0..<nat m]"
  from f have m: "map (attempt_no env task w) [0..<nat m] = map Returned ?rs"
    and u: "\<forall>r \<in> set ?rs. \<not> ar_success r"
    by auto
  from a have "?rs \<noteq> []" by simp
  from keep_best_None [OF this] obtain b where b: "foldl keep_best None ?rs = Some b"
      "b \<in> set ?rs" "\<forall>r \<in> set ?rs. score_of r \<le> score_of b"
    by blast
  from b(2) obtain k where k: "k < nat m" "b = f k" by auto
  have run: "run_with_retry env task m w = (Returned (Some b), world_after env task (nat m) w)"
    unfolding run_with_retry_def using attempts_loop_exhausted [OF m u, of None] b(1) by simp
  have "\<forall>j<nat m. \<forall>r'. attempt_no env task w j = Returned r' \<longrightarrow>
      completeness_score (verification r') \<le> completeness_score (verification b)"
  proof (intro allI impI)
    fix j r'
    assume "j < nat m" "attempt_no env task w j = Returned r'"
    with f have "r' \<in> set ?rs" by auto
    with b(3) show "completeness_score (verification r') \<le> completeness_score (verification b)"
      by (auto simp: score_of_def)
  qed
  with k f run
  show "\<exists>k<nat m. \<exists>b. attempt_no env task w k = Returned b \<and>
      run_with_retry env task m w = (Returned (Some b), world_after env task (nat m) w) \<and>
      (\<forall>j<nat m. \<forall>r'. attempt_no env task w j = Returned r' \<longrightarrow>
         completeness_score (verification r') \<le> completeness_score (verification b))"
    by blast
next
  assume a: "attempt_no env task w 0 = Returned r0 \<and> \<not> ar_success r0 \<and>
    attempt_no env task w 1 = Returned r1 \<and> \<not> ar_success r1"
  then have m: "map (attempt_no env task w) [0..<2] = map Returned [r0, r1]"
    and u: "\<forall>r \<in> set [r0, r1]. \<not> ar_success r"
    by (simp_all add: upt_rec)
  from attempts_loop_exhausted [OF m u, of None]
  show "run_with_retry env task 2 w =
      (Returned (Some (if completeness_score (verification r1) >
                          completeness_score (verification r0) then r1 else r0)),
       world_after env task 2 w)"
    by (simp add: run_with_retry_def keep_best_def)
qed

theorem C3_run_with_retry_witness:
  "run_with_retry env_recovering ''github'' 3 world0 = (Returned (Some second_response), world2) \<and>
   run_with_retry env_judged ''github'' 2 world0 =
     (Returned (Some (judged_response (3 / 4))),
      world0\<lparr>trace := judged_trace @ judged_trace, phases := all_phases @ all_phases\<rparr>)"
proof -
  have s: "\<not> ar_success first_response" "ar_success second_response"
    "\<not> ar_success (judged_response (1 / 4))" "\<not> ar_success (judged_response (3 / 4))"
    "completeness_score (verification (judged_response (1 / 4))) = 1 / 4"
    "completeness_score (verification (judged_response (3 / 4))) = 3 / 4"
    by (simp_all add: first_response_def second_response_def judged_response_def)
  have "run_with_retry env_recovering ''github'' 3 world0 =
      (Returned (Some second_response), world_after env_recovering ''github'' (Suc 1) world0)"
    using C3_run_with_retry [of 1 3 env_recovering "''github''" world0 second_response]
      recovering_attempts(1,2) s(1,2)
    by simp
  moreover have "run_with_retry env_judged ''github'' 2 world0 =
      (Returned (Some (if completeness_score (verification (judged_response (3 / 4))) >
                          completeness_score (verification (judged_response (1 / 4)))
                       then judged_response (3 / 4) else judged_response (1 / 4))),
       world_after env_judged ''github'' 2 world0)"
    using C3_run_with_retry [where env = env_judged and task = "''github''" and w = world0
        and ?r0.0 = "judged_response (1 / 4)" and ?r1.0 = "judged_response (3 / 4)"]
      judged_attempts(1,2) s(3,4)
    by blast
  ultimately show ?thesis
    using recovering_attempts(3) judged_attempts(3) s(5,6) by (simp add: eval_nat_numeral)
qed

end
